theory Spec2Isabelle
  imports Main "HOL-Library.AList"
begin

section \<open>Exceptions\<close>

text \<open>
  The Python exceptions that the modelled code can raise. A function that may raise returns
  \<open>exn + 'a\<close>, with \<open>Inl\<close> for the exception. \<open>NotModelled\<close> marks an input whose
  behaviour the embedding does not follow (see \<open>tokens\<close>).
\<close>

datatype exn =
    KeyError string
  | IndexError
  | ValueError
  | AttributeError
  | TypeError
  | FileNotFoundError
  | FileExistsError
  | IsADirectoryError
  | NotADirectoryError
  | SameFileError
  | NotModelled

section \<open>Strings\<close>

text \<open>
  Python strings are modelled as \<open>string\<close>; characters are ASCII. \<open>lower\<close> is
  \<open>str.lower\<close> on ASCII letters, \<open>rfind\<close> is \<open>str.rfind\<close> for a one-character needle
  (\<open>-1\<close> when absent), \<open>replace\<close> is \<open>str.replace\<close> for a one-character needle,
  \<open>strip\<close> is \<open>str.strip(chars)\<close>, \<open>endswith\<close> is \<open>str.endswith\<close>.
\<close>

definition lower_char :: "char \<Rightarrow> char" where
  "lower_char c =
     (let n = (of_char c :: nat) in if 65 \<le> n \<and> n \<le> 90 then char_of (n + 32) else c)"

definition lower :: "string \<Rightarrow> string" where
  "lower s = map lower_char s"

fun rfind :: "char \<Rightarrow> string \<Rightarrow> int" where
  "rfind c [] = - 1"
| "rfind c (x # xs) =
     (let r = rfind c xs in if 0 \<le> r then r + 1 else if x = c then 0 else - 1)"

definition replace :: "char \<Rightarrow> string \<Rightarrow> string \<Rightarrow> string" where
  "replace old new s = concat (map (\<lambda>x. if x = old then new else [x]) s)"

definition strip :: "string \<Rightarrow> string \<Rightarrow> string" where
  "strip chars s =
     rev (dropWhile (\<lambda>c. c \<in> set chars) (rev (dropWhile (\<lambda>c. c \<in> set chars) s)))"


text \<open>\<open>str_nat\<close> is \<open>str(n)\<close> for a non-negative integer: its decimal digits.\<close>

definition digit_char :: "nat \<Rightarrow> char" where
  "digit_char n = ''0123456789'' ! n"

fun str_nat :: "nat \<Rightarrow> string" where
  "str_nat n = (if n < 10 then [digit_char n] else str_nat (n div 10) @ [digit_char (n mod 10)])"

declare str_nat.simps [simp del]

section \<open>Paths (pathlib, POSIX flavour)\<close>

text \<open>
  A path is a list of components, anchored at the root or relative to the working
  directory. \<open>name\<close>, \<open>suffix\<close>, \<open>stem\<close> and \<open>parent\<close> follow \<open>pathlib.PurePath\<close>:
  the suffix starts at the last dot of the name, unless that dot is the first or the
  last character. \<open>joinpath p s\<close> is \<open>p / s\<close> for a right operand that is a single
  component (or empty, or a dot), the only case that the modelled code produces.
  \<open>str_path\<close> is \<open>str(p)\<close> and \<open>parse_path\<close> is \<open>Path(s)\<close>.
\<close>

datatype path = Path (anchored: bool) (parts: "string list")

definition name :: "path \<Rightarrow> string" where
  "name p = (if parts p = [] then [] else last (parts p))"

definition parent :: "path \<Rightarrow> path" where
  "parent p = Path (anchored p) (butlast (parts p))"

definition suffix :: "path \<Rightarrow> string" where
  "suffix p =
     (let i = rfind CHR ''.'' (name p)
      in if 0 < i \<and> i < int (length (name p)) - 1 then drop (nat i) (name p) else [])"

definition stem :: "path \<Rightarrow> string" where
  "stem p =
     (let i = rfind CHR ''.'' (name p)
      in if 0 < i \<and> i < int (length (name p)) - 1 then take (nat i) (name p) else name p)"

definition joinpath :: "path \<Rightarrow> string \<Rightarrow> path" where
  "joinpath p s = (if s = [] \<or> s = ''.'' then p else Path (anchored p) (parts p @ [s]))"

fun intercalate :: "string \<Rightarrow> string list \<Rightarrow> string" where
  "intercalate sep [] = []"
| "intercalate sep [x] = x"
| "intercalate sep (x # y # ys) = x @ sep @ intercalate sep (y # ys)"

definition str_path :: "path \<Rightarrow> string" where
  "str_path p =
     (if parts p = [] then (if anchored p then ''/'' else ''.'')
      else (if anchored p then ''/'' else []) @ intercalate ''/'' (parts p))"

fun split_slash :: "string \<Rightarrow> string \<Rightarrow> string list" where
  "split_slash acc [] = [acc]"
| "split_slash acc (c # cs) =
     (if c = CHR ''/'' then acc # split_slash [] cs else split_slash (acc @ [c]) cs)"

definition parse_path :: "string \<Rightarrow> path" where
  "parse_path s =
     Path (s \<noteq> [] \<and> hd s = CHR ''/'')
          (filter (\<lambda>c. c \<noteq> [] \<and> c \<noteq> ''.'') (split_slash [] s))"

section \<open>Filename sanitizer (utils/file\_utils.py)\<close>

definition invalid_chars :: string where
  "invalid_chars = ''<|>:'' @ [CHR 0x22] @ ''/'' @ [CHR 0x5C] @ ''|?*''"

definition sanitize_filename :: "string \<Rightarrow> string \<Rightarrow> string" where
  "sanitize_filename filename replace_chars =
     (let filename = foldl (\<lambda>f c. replace c replace_chars f) filename invalid_chars;
          filename = strip '' .'' filename
      in if filename = [] then ''unnamed_file'' else filename)"

section \<open>Format strings (str.format with keyword arguments)\<close>

text \<open>
  \<open>pattern.format(**metadata)\<close> reads the pattern from left to right. \<open>tokens\<close> is its
  scanner: literal characters, the escapes \<open>{{\<close> and \<open>}}\<close>, and replacement fields
  \<open>{name}\<close>. A field with an empty or all-digit name is positional; a single brace, a
  brace inside a field name or a field without its closing brace is malformed and ends
  the scan. A field that uses a conversion, a format specification, an attribute or an
  index (\<open>!\<close>, \<open>:\<close>, \<open>.\<close>, \<open>[\<close>) is outside the embedding and ends the scan as
  \<open>Complex\<close>. A metadata mapping gives every key the text that \<open>format\<close> renders for its
  value.
\<close>

type_synonym metadata = "string \<rightharpoonup> string"

datatype token = Literal char | Field string | Positional | Complex | Malformed

definition classify :: "string \<Rightarrow> token" where
  "classify field_name =
     (if list_all (\<lambda>c. c \<in> set ''0123456789'') field_name then Positional
      else Field field_name)"

fun tokens :: "string \<Rightarrow> token list" and field :: "string \<Rightarrow> string \<Rightarrow> token list" where
  "tokens [] = []"
| "tokens (c # cs) =
     (if c = CHR ''{'' then
        (case cs of
           [] \<Rightarrow> [Malformed]
         | c' # cs' \<Rightarrow> if c' = CHR ''{'' then Literal c # tokens cs' else field [] cs)
      else if c = CHR ''}'' then
        (case cs of
           [] \<Rightarrow> [Malformed]
         | c' # cs' \<Rightarrow> if c' = CHR ''}'' then Literal c # tokens cs' else [Malformed])
      else Literal c # tokens cs)"
| "field acc [] = [Malformed]"
| "field acc (c # cs) =
     (if c = CHR ''}'' then classify acc # tokens cs
      else if c = CHR ''{'' then [Malformed]
      else if c \<in> set ''!:.['' then [Complex]
      else field (acc @ [c]) cs)"

fun render :: "token list \<Rightarrow> metadata \<Rightarrow> exn + string" where
  "render [] md = Inr []"
| "render (Literal c # ts) md =
     (case render ts md of Inl e \<Rightarrow> Inl e | Inr s \<Rightarrow> Inr (c # s))"
| "render (Field k # ts) md =
     (case md k of
        None \<Rightarrow> Inl (KeyError k)
      | Some v \<Rightarrow> (case render ts md of Inl e \<Rightarrow> Inl e | Inr s \<Rightarrow> Inr (v @ s)))"
| "render (Positional # ts) md = Inl IndexError"
| "render (Complex # ts) md = Inl NotModelled"
| "render (Malformed # ts) md = Inl ValueError"

definition format :: "string \<Rightarrow> metadata \<Rightarrow> exn + string" where
  "format pattern md = render (tokens pattern) md"

section \<open>Configuration\<close>

text \<open>
  The configuration dictionary, with the keys that the modelled code reads; an absent key
  is \<open>None\<close>. \<open>supported_formats\<close> is either a flat list of extensions (the shape of
  \<open>AppConfig\<close> and of \<open>_get_default_config_dict\<close>) or a dictionary from a kind to its
  list of extensions (the shape that \<open>FileRenamer\<close>, \<open>MetadataHandler\<close> and the test
  scripts use). \<open>cfg_backup_enabled\<close> and \<open>cfg_update_metadata\<close> are the top-level keys
  read by \<open>process_file\<close>; \<open>processing_backup_enabled\<close> and
  \<open>processing_backup_directory\<close> are the keys under \<open>processing\<close> read by
  \<open>BackupManager\<close>.
\<close>

datatype supported_formats =
    FormatList "string list"
  | FormatDict "string \<rightharpoonup> string list"

record config =
  cfg_backup_enabled :: "bool option"
  cfg_update_metadata :: "bool option"
  processing_backup_enabled :: "bool option"
  processing_backup_directory :: "string option"
  naming_audio_pattern :: "string option"
  naming_video_pattern :: "string option"
  supported_formats :: "supported_formats option"

text \<open>
  \<open>config.get("supported_formats", {}).get(kind, [])\<close>: a list has no \<open>get\<close>, so the
  flat shape raises \<open>AttributeError\<close>.
\<close>

definition kind_formats :: "config \<Rightarrow> string \<Rightarrow> exn + string list" where
  "kind_formats cfg kind =
     (case supported_formats cfg of
        None \<Rightarrow> Inr []
      | Some (FormatList l) \<Rightarrow> Inl AttributeError
      | Some (FormatDict fm) \<Rightarrow> (case fm kind of None \<Rightarrow> Inr [] | Some l \<Rightarrow> Inr l))"

section \<open>Filename generator (core/file\_renamer.py)\<close>

definition renamer_is_audio :: "config \<Rightarrow> path \<Rightarrow> exn + bool" where
  "renamer_is_audio cfg file_path =
     (case kind_formats cfg ''audio'' of
        Inl e \<Rightarrow> Inl e
      | Inr l \<Rightarrow> Inr (lower (suffix file_path) \<in> set l))"

definition renamer_is_video :: "config \<Rightarrow> path \<Rightarrow> exn + bool" where
  "renamer_is_video cfg file_path =
     (case kind_formats cfg ''video'' of
        Inl e \<Rightarrow> Inl e
      | Inr l \<Rightarrow> Inr (lower (suffix file_path) \<in> set l))"

definition audio_pattern :: "config \<Rightarrow> string" where
  "audio_pattern cfg =
     (case naming_audio_pattern cfg of None \<Rightarrow> ''{artist} - {title}'' | Some s \<Rightarrow> s)"

definition video_pattern :: "config \<Rightarrow> string" where
  "video_pattern cfg =
     (case naming_video_pattern cfg of None \<Rightarrow> ''{title} ({year})'' | Some s \<Rightarrow> s)"

text \<open>
  \<open>fill_pattern\<close> is the \<open>try\<close> block of \<open>generate_filename\<close> and its last line: a
  \<open>KeyError\<close> gives the original name back, any other exception propagates, and the
  formatted name is sanitized with the extension already attached.
\<close>

definition fill_pattern :: "string \<Rightarrow> path \<Rightarrow> metadata \<Rightarrow> exn + string" where
  "fill_pattern pattern file_path md =
     (case format pattern md of
        Inl (KeyError k) \<Rightarrow> Inr (name file_path)
      | Inl e \<Rightarrow> Inl e
      | Inr new_name \<Rightarrow> Inr (sanitize_filename (new_name @ suffix file_path) ''_''))"

definition generate_filename :: "config \<Rightarrow> path \<Rightarrow> metadata \<Rightarrow> exn + string" where
  "generate_filename cfg file_path md =
     (case renamer_is_audio cfg file_path of
        Inl e \<Rightarrow> Inl e
      | Inr True \<Rightarrow> fill_pattern (audio_pattern cfg) file_path md
      | Inr False \<Rightarrow>
          (case renamer_is_video cfg file_path of
             Inl e \<Rightarrow> Inl e
           | Inr True \<Rightarrow> fill_pattern (video_pattern cfg) file_path md
           | Inr False \<Rightarrow> Inr (name file_path)))"

text \<open>
  The vocabulary of the claims about patterns: the placeholders of a pattern are the
  names of its replacement fields; a named pattern is one that scans into literal
  characters and named fields only; a file's kind is audio or video, with the pattern
  that \<open>generate_filename\<close> then uses.
\<close>

fun placeholders :: "token list \<Rightarrow> string list" where
  "placeholders [] = []"
| "placeholders (Field k # ts) = k # placeholders ts"
| "placeholders (t # ts) = placeholders ts"



section \<open>Filesystem\<close>

text \<open>
  The disk is a finite table from paths to nodes: a regular file with its content and
  modification time, or a directory. Paths are keyed as the program names them. The path
  with no component (the root, or the working directory) is always a directory.
\<close>

datatype node = File (content: string) (mtime: int) | Dir

type_synonym disk = "(path \<times> node) list"

definition lookup :: "disk \<Rightarrow> path \<Rightarrow> node option" where
  "lookup d p = (if parts p = [] then Some Dir else map_of d p)"

definition exists :: "disk \<Rightarrow> path \<Rightarrow> bool" where
  "exists d p = (lookup d p \<noteq> None)"

definition is_file :: "disk \<Rightarrow> path \<Rightarrow> bool" where
  "is_file d p = (case lookup d p of Some (File c t) \<Rightarrow> True | _ \<Rightarrow> False)"

definition is_dir :: "disk \<Rightarrow> path \<Rightarrow> bool" where
  "is_dir d p = (lookup d p = Some Dir)"

section \<open>Uniqueness resolver (utils/file\_utils.py)\<close>

text \<open>
  \<open>numbered file_path counter\<close> is the candidate that the loop of
  \<open>get_unique_filename\<close> builds for a counter:
  \<open>parent / f"{stem}_{counter}{suffix}"\<close>.
\<close>

definition numbered :: "path \<Rightarrow> nat \<Rightarrow> path" where
  "numbered file_path counter =
     joinpath (parent file_path)
       (stem file_path @ ''_'' @ str_nat counter @ suffix file_path)"

text \<open>
  The loop of \<open>get_unique_filename\<close> has no bound in the source. It ends because the
  disk is finite and distinct counters give distinct candidates, which rests on
  \<open>str_nat\<close> being injective (\<open>val_digits\<close> reads a numeral back).
\<close>

definition val_digits :: "string \<Rightarrow> nat" where
  "val_digits s = foldl (\<lambda>a c. 10 * a + (of_char c - 48)) 0 s"

lemma digit_char_val: "d < 10 \<Longrightarrow> (of_char (digit_char d) :: nat) = 48 + d"
proof -
  assume "d < 10"
  then have "d \<in> {0, 1, 2, 3, 4, 5, 6, 7, 8, 9}" by auto
  then show ?thesis by (auto simp: digit_char_def)
qed

lemma val_digits_str_nat: "val_digits (str_nat n) = n"
proof (induction n rule: str_nat.induct)
  case (1 n)
  show ?case
  proof (cases "n < 10")
    case True
    then have "str_nat n = [digit_char n]"
      by (simp add: str_nat.simps[of n])
    with True show ?thesis
      by (simp add: val_digits_def digit_char_val)
  next
    case False
    with 1 have ih: "val_digits (str_nat (n div 10)) = n div 10" by simp
    have d: "(of_char (digit_char (n mod 10)) :: nat) = 48 + n mod 10"
      by (rule digit_char_val) simp
    from False have "str_nat n = str_nat (n div 10) @ [digit_char (n mod 10)]"
      by (simp add: str_nat.simps[of n])
    then have "val_digits (str_nat n) = 10 * val_digits (str_nat (n div 10)) + n mod 10"
      by (simp add: val_digits_def d)
    with ih show ?thesis by simp
  qed
qed

lemma str_nat_inj: "str_nat a = str_nat b \<Longrightarrow> a = b"
  by (metis val_digits_str_nat)

lemma str_nat_nonempty: "str_nat n \<noteq> []"
  by (simp add: str_nat.simps[of n])

lemma numbered_name_proper:
  "stem p @ ''_'' @ str_nat k @ suffix p \<noteq> [] \<and> stem p @ ''_'' @ str_nat k @ suffix p \<noteq> ''.''"
proof -
  let ?s = "stem p @ ''_'' @ str_nat k @ suffix p"
  obtain x xs where "str_nat k = x # xs"
    using str_nat_nonempty[of k] by (cases "str_nat k") simp_all
  then have "length ?s = length (stem p) + 2 + length xs + length (suffix p)"
    by simp
  then have l: "length ?s \<noteq> 1" by arith
  have "?s \<noteq> ''.''"
  proof
    assume "?s = ''.''"
    then have "length ?s = length ''.''" by (rule arg_cong)
    with l show False by simp
  qed
  then show ?thesis by simp
qed

lemma numbered_parts:
  "parts (numbered p k) = butlast (parts p) @ [stem p @ ''_'' @ str_nat k @ suffix p]"
  using numbered_name_proper[of p k]
  by (simp only: numbered_def joinpath_def parent_def path.sel if_False simp_thms)

lemma numbered_inj: "numbered p a = numbered p b \<Longrightarrow> a = b"
proof -
  assume "numbered p a = numbered p b"
  then have "parts (numbered p a) = parts (numbered p b)" by simp
  then have "str_nat a = str_nat b" by (simp add: numbered_parts)
  then show ?thesis by (rule str_nat_inj)
qed

lemma exists_numbered_in_disk: "exists d (numbered p k) \<Longrightarrow> numbered p k \<in> set (map fst d)"
proof -
  assume e: "exists d (numbered p k)"
  have "parts (numbered p k) \<noteq> []" by (simp add: numbered_parts)
  with e have "map_of d (numbered p k) \<noteq> None" by (simp add: exists_def lookup_def)
  then show ?thesis by (simp add: map_of_eq_None_iff)
qed

function unique_loop :: "disk \<Rightarrow> path \<Rightarrow> nat \<Rightarrow> path" where
  "unique_loop d file_path counter =
     (let new_path = numbered file_path counter
      in if \<not> exists d new_path then new_path
         else unique_loop d file_path (counter + 1))"
  by pat_completeness auto

termination
proof (relation "measure (\<lambda>(d, p, c). length (filter (\<lambda>q. \<exists>k\<ge>c. q = numbered p k) (map fst d)))")
  show "wf (measure (\<lambda>(d, p, c). length (filter (\<lambda>q. \<exists>k\<ge>c. q = numbered p k) (map fst d))))"
    by (rule wf_measure)
next
  fix d :: disk and file_path counter new_path
  assume np: "new_path = numbered file_path counter" and ne: "\<not> \<not> exists d new_path"
  define xs where "xs = map fst d"
  define P where "P = (\<lambda>q. \<exists>k\<ge>counter. q = numbered file_path k)"
  define Q where "Q = (\<lambda>q. \<exists>k\<ge>counter + 1. q = numbered file_path k)"
  have qp: "P q" if "Q q" for q
  proof -
    from that obtain k where "counter + 1 \<le> k" "q = numbered file_path k"
      unfolding Q_def by blast
    then have "counter \<le> k \<and> q = numbered file_path k" by simp
    then show ?thesis unfolding P_def by blast
  qed
  have "filter Q (filter P xs) = filter (\<lambda>x. P x \<and> Q x) xs"
    by (rule filter_filter)
  also have "\<dots> = filter Q xs"
    by (rule filter_cong) (use qp in blast)+
  finally have f: "filter Q xs = filter Q (filter P xs)"
    by (rule sym)
  from ne np have "new_path \<in> set xs"
    unfolding xs_def using exists_numbered_in_disk by blast
  moreover have "P new_path"
    unfolding P_def using np by blast
  ultimately have m: "new_path \<in> set (filter P xs)"
    by simp
  have nq: "\<not> Q new_path"
  proof
    assume "Q new_path"
    then obtain k where k: "counter + 1 \<le> k" "new_path = numbered file_path k"
      unfolding Q_def by blast
    from k(2) np have "numbered file_path counter = numbered file_path k"
      by simp
    then have "counter = k" by (rule numbered_inj)
    with k(1) show False by simp
  qed
  from m nq have "length (filter Q (filter P xs)) < length (filter P xs)"
    by (rule length_filter_less)
  with f have "length (filter Q xs) < length (filter P xs)"
    by simp
  then show "((d, file_path, counter + 1), (d, file_path, counter))
        \<in> measure (\<lambda>(d, p, c). length (filter (\<lambda>q. \<exists>k\<ge>c. q = numbered p k) (map fst d)))"
    unfolding xs_def P_def Q_def by simp
qed

declare unique_loop.simps [simp del]

definition get_unique_filename :: "disk \<Rightarrow> path \<Rightarrow> path" where
  "get_unique_filename d file_path =
     (if \<not> exists d file_path then file_path else unique_loop d file_path 1)"

section \<open>Metadata gateway: kind dispatch (core/metadata\_handler.py)\<close>

definition handler_is_audio :: "config \<Rightarrow> path \<Rightarrow> exn + bool" where
  "handler_is_audio cfg file_path =
     (case kind_formats cfg ''audio'' of
        Inl e \<Rightarrow> Inl e
      | Inr l \<Rightarrow> Inr (lower (suffix file_path) \<in> set l))"

definition handler_is_video :: "config \<Rightarrow> path \<Rightarrow> exn + bool" where
  "handler_is_video cfg file_path =
     (case kind_formats cfg ''video'' of
        Inl e \<Rightarrow> Inl e
      | Inr l \<Rightarrow> Inr (lower (suffix file_path) \<in> set l))"

section \<open>File processor: discovery (core/file\_processor.py)\<close>

text \<open>
  \<open>rglob d directory_path\<close> lists what the disk holds below a directory, in the order
  of the table. \<open>is_media_file\<close> is \<open>file_path.suffix.lower() in supported_formats\<close>:
  membership in a list, or among the keys of a dictionary. \<open>find_media_files\<close> reads
  \<open>config.get('supported_formats', [])\<close>.
\<close>

definition is_under :: "path \<Rightarrow> path \<Rightarrow> bool" where
  "is_under directory_path q =
     (anchored q = anchored directory_path
      \<and> length (parts directory_path) < length (parts q)
      \<and> take (length (parts directory_path)) (parts q) = parts directory_path)"

definition rglob :: "disk \<Rightarrow> path \<Rightarrow> path list" where
  "rglob d directory_path = filter (is_under directory_path) (map fst d)"

definition is_media_file :: "path \<Rightarrow> supported_formats \<Rightarrow> bool" where
  "is_media_file file_path formats =
     (case formats of
        FormatList l \<Rightarrow> lower (suffix file_path) \<in> set l
      | FormatDict fm \<Rightarrow> fm (lower (suffix file_path)) \<noteq> None)"

definition find_media_files :: "config \<Rightarrow> disk \<Rightarrow> path \<Rightarrow> path list" where
  "find_media_files cfg d directory_path =
     (let formats = (case supported_formats cfg of None \<Rightarrow> FormatList [] | Some f \<Rightarrow> f)
      in filter (\<lambda>file_path. is_file d file_path \<and> is_media_file file_path formats)
           (rglob d directory_path))"

section \<open>Filesystem operations\<close>

text \<open>
  The operations of \<open>os\<close>, \<open>pathlib\<close> and \<open>shutil\<close> that the code calls, each
  with the failures that depend on what the disk holds: a missing file, a directory
  where a file is needed, a file where a directory is needed, copying a file onto
  itself. Permissions and full disks are outside the embedding.

  \<open>os_mkdir\<close> is \<open>os.mkdir\<close>; \<open>mkdir_parents\<close> is
  \<open>Path.mkdir(parents=True, exist_ok=True)\<close>, which retries after creating the parent
  when the parent is missing, and accepts an existing directory. \<open>copy2\<close> is
  \<open>shutil.copy2\<close>: into a directory it copies under the source's base name, and the
  copy keeps the content and the modification time. \<open>write_text\<close> is
  \<open>open(p, 'w')\<close> followed by a write. \<open>rename\<close> is \<open>Path.rename\<close> for a free
  target.
\<close>

definition put :: "disk \<Rightarrow> path \<Rightarrow> node \<Rightarrow> disk" where
  "put d p n = AList.update p n d"

definition os_mkdir :: "disk \<Rightarrow> path \<Rightarrow> exn + disk" where
  "os_mkdir d p =
     (if exists d p then Inl FileExistsError
      else (case lookup d (parent p) of
              None \<Rightarrow> Inl FileNotFoundError
            | Some (File c t) \<Rightarrow> Inl NotADirectoryError
            | Some Dir \<Rightarrow> Inr (put d p Dir)))"

definition mkdir_exist_ok :: "disk \<Rightarrow> path \<Rightarrow> exn + disk" where
  "mkdir_exist_ok d p =
     (case os_mkdir d p of
        Inr d' \<Rightarrow> Inr d'
      | Inl e \<Rightarrow> if e \<noteq> FileNotFoundError \<and> is_dir d p then Inr d else Inl e)"

function mkdir_parents :: "disk \<Rightarrow> path \<Rightarrow> exn + disk" where
  "mkdir_parents d p =
     (case os_mkdir d p of
        Inr d' \<Rightarrow> Inr d'
      | Inl e \<Rightarrow>
          if e = FileNotFoundError then
            (if parent p = p then Inl e
             else (case mkdir_parents d (parent p) of
                     Inl e' \<Rightarrow> Inl e'
                   | Inr d' \<Rightarrow> mkdir_exist_ok d' p))
          else if is_dir d p then Inr d
          else Inl e)"
  by pat_completeness auto

termination
proof (relation "measure (\<lambda>(d, p). length (parts p))")
  show "wf (measure (\<lambda>(d, p). length (parts p)))"
    by (rule wf_measure)
next
  fix d :: disk and p :: path and e :: exn
  assume "parent p \<noteq> p"
  then have "parts p \<noteq> []"
    by (cases p) (auto simp: parent_def)
  then show "((d, parent p), (d, p)) \<in> measure (\<lambda>(d, p). length (parts p))"
    by (simp add: parent_def)
qed

declare mkdir_parents.simps [simp del]

definition copy2 :: "disk \<Rightarrow> path \<Rightarrow> path \<Rightarrow> exn + disk" where
  "copy2 d src dst =
     (let dst = (if is_dir d dst then joinpath dst (name src) else dst)
      in if src = dst \<and> exists d src then Inl SameFileError
         else (case lookup d src of
                 None \<Rightarrow> Inl FileNotFoundError
               | Some Dir \<Rightarrow> Inl IsADirectoryError
               | Some (File c t) \<Rightarrow>
                   (case lookup d dst of
                      Some Dir \<Rightarrow> Inl IsADirectoryError
                    | _ \<Rightarrow>
                        (case lookup d (parent dst) of
                           None \<Rightarrow> Inl FileNotFoundError
                         | Some (File c' t') \<Rightarrow> Inl NotADirectoryError
                         | Some Dir \<Rightarrow> Inr (put d dst (File c t))))))"

definition unlink :: "disk \<Rightarrow> path \<Rightarrow> exn + disk" where
  "unlink d p =
     (case lookup d p of
        None \<Rightarrow> Inl FileNotFoundError
      | Some Dir \<Rightarrow> Inl IsADirectoryError
      | Some (File c t) \<Rightarrow> Inr (AList.delete p d))"

definition write_text :: "disk \<Rightarrow> path \<Rightarrow> string \<Rightarrow> int \<Rightarrow> exn + disk" where
  "write_text d p s now =
     (case lookup d p of
        Some Dir \<Rightarrow> Inl IsADirectoryError
      | _ \<Rightarrow>
          (case lookup d (parent p) of
             None \<Rightarrow> Inl FileNotFoundError
           | Some (File c' t') \<Rightarrow> Inl NotADirectoryError
           | Some Dir \<Rightarrow> Inr (put d p (File s now))))"

definition stat_size :: "disk \<Rightarrow> path \<Rightarrow> exn + int" where
  "stat_size d p =
     (case lookup d p of
        None \<Rightarrow> Inl FileNotFoundError
      | Some Dir \<Rightarrow> Inl NotModelled
      | Some (File c t) \<Rightarrow> Inr (int (length c)))"

definition rebase :: "path \<Rightarrow> path \<Rightarrow> path \<Rightarrow> path" where
  "rebase old new q =
     (if q = old \<or> is_under old q
      then Path (anchored new) (parts new @ drop (length (parts old)) (parts q))
      else q)"

definition rename :: "disk \<Rightarrow> path \<Rightarrow> path \<Rightarrow> exn + disk" where
  "rename d old new =
     (if parts old = [] then Inl NotModelled
      else if old = new \<and> exists d old then Inr d
      else (case lookup d old of
              None \<Rightarrow> Inl FileNotFoundError
            | Some n \<Rightarrow>
                if \<not> is_dir d (parent new) then Inl FileNotFoundError
                else Inr (map (\<lambda>(q, m). (rebase old new q, m)) (AList.delete new d))))"

section \<open>Collaborators outside the embedding\<close>

text \<open>
  What the code obtains from libraries and from the clock is a parameter:
  \<open>format_ok\<close> says whether the format detector finds a format for a non-empty regular
  file and reports no format-specific error; \<open>read_tags\<close> and \<open>write_tags\<close> are the
  audio codec (\<open>write_tags\<close> gives the new content, or \<open>None\<close> when the update
  fails); \<open>strftime_now\<close>, \<open>isoformat_now\<close> and \<open>timestamp_now\<close> are
  \<open>datetime.now()\<close> as \<open>strftime("%Y%m%d_%H%M%S")\<close>, as \<open>isoformat()\<close> and as
  \<open>timestamp()\<close> in seconds; \<open>md5_hex\<close> is the hex digest of \<open>hashlib.md5\<close>;
  \<open>json_dump\<close> and \<open>json_load\<close> are the JSON text of a ledger and its parser
  (\<open>None\<close> when the text does not parse); \<open>str_exn\<close> is \<open>str(e)\<close>.
\<close>

datatype jvalue = JStr string | JInt int | JNull

type_synonym entry = "(string \<times> jvalue) list"

record env =
  format_ok :: "path \<Rightarrow> string \<Rightarrow> bool"
  read_tags :: "path \<Rightarrow> string \<Rightarrow> metadata"
  write_tags :: "path \<Rightarrow> string \<Rightarrow> metadata \<Rightarrow> string option"
  strftime_now :: string
  isoformat_now :: string
  timestamp_now :: int
  md5_hex :: "string \<Rightarrow> string"
  json_dump :: "entry list \<Rightarrow> string"
  json_load :: "string \<Rightarrow> entry list option"
  str_exn :: "exn \<Rightarrow> string"

section \<open>Backup store (utils/backup.py)\<close>

text \<open>
  A ledger entry is the dictionary that \<open>_add_backup_entry\<close> builds; the ledger is the
  list \<open>backup_metadata\<close>. The manager's fields are those that \<open>__init__\<close> sets.
  Every method takes the manager and the disk and returns its result with both.
\<close>

record backup_manager =
  backup_dir :: path
  backup_enabled :: bool
  metadata_file :: path
  backup_metadata :: "entry list"

definition load_backup_metadata :: "env \<Rightarrow> disk \<Rightarrow> path \<Rightarrow> entry list" where
  "load_backup_metadata env d file =
     (case lookup d file of
        Some (File c t) \<Rightarrow> (case json_load env c of Some l \<Rightarrow> l | None \<Rightarrow> [])
      | _ \<Rightarrow> [])"

definition save_backup_metadata :: "env \<Rightarrow> backup_manager \<Rightarrow> disk \<Rightarrow> disk" where
  "save_backup_metadata env m d =
     (case write_text d (metadata_file m) (json_dump env (backup_metadata m)) (timestamp_now env) of
        Inl e \<Rightarrow> d
      | Inr d' \<Rightarrow> d')"

definition backup_manager_init :: "env \<Rightarrow> config \<Rightarrow> disk \<Rightarrow> exn + backup_manager \<times> disk" where
  "backup_manager_init env cfg d =
     (let dir = parse_path (case processing_backup_directory cfg of
                              None \<Rightarrow> ''./backups'' | Some s \<Rightarrow> s);
          enabled = (case processing_backup_enabled cfg of None \<Rightarrow> True | Some b \<Rightarrow> b)
      in case (if enabled then mkdir_parents d dir else Inr d) of
           Inl e \<Rightarrow> Inl e
         | Inr d' \<Rightarrow>
             (let file = joinpath dir ''backup_metadata.json''
              in Inr (\<lparr>backup_dir = dir, backup_enabled = enabled, metadata_file = file,
                        backup_metadata = load_backup_metadata env d' file\<rparr>, d')))"

definition calculate_file_hash :: "env \<Rightarrow> disk \<Rightarrow> path \<Rightarrow> string option" where
  "calculate_file_hash env d file_path =
     (case lookup d file_path of
        Some (File c t) \<Rightarrow> Some (md5_hex env c)
      | _ \<Rightarrow> None)"

definition add_backup_entry ::
  "env \<Rightarrow> backup_manager \<Rightarrow> disk \<Rightarrow> path \<Rightarrow> path \<Rightarrow> exn + backup_manager \<times> disk" where
  "add_backup_entry env m d original_path backup_path =
     (case stat_size d original_path of
        Inl e \<Rightarrow> Inl e
      | Inr file_size \<Rightarrow>
          (let entry = [(''original_path'', JStr (str_path original_path)),
                        (''backup_path'', JStr (str_path backup_path)),
                        (''created_at'', JStr (isoformat_now env)),
                        (''file_size'', JInt file_size),
                        (''file_hash'', (case calculate_file_hash env d original_path of
                                           None \<Rightarrow> JNull | Some h \<Rightarrow> JStr h))];
               m' = m\<lparr>backup_metadata := backup_metadata m @ [entry]\<rparr>
           in Inr (m', save_backup_metadata env m' d)))"

definition create_backup ::
  "env \<Rightarrow> backup_manager \<Rightarrow> disk \<Rightarrow> path \<Rightarrow> path option \<times> backup_manager \<times> disk" where
  "create_backup env m d file_path =
     (if \<not> backup_enabled m then (None, m, d)
      else
        (let backup_filename = stem file_path @ ''_'' @ strftime_now env @ suffix file_path;
             backup_path = joinpath (backup_dir m) backup_filename
         in case copy2 d file_path backup_path of
              Inl e \<Rightarrow> (None, m, d)
            | Inr d1 \<Rightarrow>
                (case add_backup_entry env m d1 file_path backup_path of
                   Inl e \<Rightarrow> (None, m, d1)
                 | Inr (m2, d2) \<Rightarrow> (Some backup_path, m2, d2))))"

definition entry_path :: "entry \<Rightarrow> string \<Rightarrow> exn + path" where
  "entry_path e k =
     (case map_of e k of
        None \<Rightarrow> Inl (KeyError k)
      | Some (JStr s) \<Rightarrow> Inr (parse_path s)
      | Some v \<Rightarrow> Inl TypeError)"

fun get_original_path :: "entry list \<Rightarrow> path \<Rightarrow> exn + path option" where
  "get_original_path [] backup_path = Inr None"
| "get_original_path (e # es) backup_path =
     (if map_of e ''backup_path'' = Some (JStr (str_path backup_path))
      then (case entry_path e ''original_path'' of
              Inl x \<Rightarrow> Inl x
            | Inr p \<Rightarrow> Inr (Some p))
      else get_original_path es backup_path)"

definition restore_backup ::
  "env \<Rightarrow> backup_manager \<Rightarrow> disk \<Rightarrow> path \<Rightarrow> path option \<Rightarrow> bool \<times> backup_manager \<times> disk" where
  "restore_backup env m d backup_path restore_path =
     (case get_original_path (backup_metadata m) backup_path of
        Inl e \<Rightarrow> (False, m, d)
      | Inr None \<Rightarrow> (False, m, d)
      | Inr (Some original_path) \<Rightarrow>
          (let restore_path = (case restore_path of None \<Rightarrow> original_path | Some r \<Rightarrow> r)
           in case mkdir_parents d (parent restore_path) of
                Inl e \<Rightarrow> (False, m, d)
              | Inr d1 \<Rightarrow>
                  (case copy2 d1 backup_path restore_path of
                     Inl e \<Rightarrow> (False, m, d1)
                   | Inr d2 \<Rightarrow> (True, m, d2))))"

definition list_backups :: "backup_manager \<Rightarrow> path option \<Rightarrow> entry list" where
  "list_backups m file_path =
     (case file_path of
        None \<Rightarrow> backup_metadata m
      | Some p \<Rightarrow>
          filter (\<lambda>entry. map_of entry ''original_path'' = Some (JStr (str_path p)))
            (backup_metadata m))"

text \<open>
  The loop of \<open>cleanup_old_backups\<close> over a copy of the ledger: the entries still to
  visit, the ledger, the disk and the count. An entry without a usable \<open>backup_path\<close>
  raises out of the loop. A path that does not exist is skipped. A directory is skipped
  too: whatever its age, \<open>unlink\<close> raises on it and the exception is logged. A failed
  \<open>list.remove\<close> is logged after the file is gone.
\<close>

fun cleanup_loop ::
  "int \<Rightarrow> entry list \<Rightarrow> entry list \<Rightarrow> disk \<Rightarrow> nat
    \<Rightarrow> exn option \<times> entry list \<times> disk \<times> nat" where
  "cleanup_loop cutoff_time [] ledger d removed_count = (None, ledger, d, removed_count)"
| "cleanup_loop cutoff_time (entry # rest) ledger d removed_count =
     (case entry_path entry ''backup_path'' of
        Inl e \<Rightarrow> (Some e, ledger, d, removed_count)
      | Inr backup_path \<Rightarrow>
          (case lookup d backup_path of
             Some (File c t) \<Rightarrow>
               if t < cutoff_time then
                 (case unlink d backup_path of
                    Inl e \<Rightarrow> cleanup_loop cutoff_time rest ledger d removed_count
                  | Inr d' \<Rightarrow>
                      if entry \<in> set ledger
                      then cleanup_loop cutoff_time rest (remove1 entry ledger) d'
                             (removed_count + 1)
                      else cleanup_loop cutoff_time rest ledger d' removed_count)
               else cleanup_loop cutoff_time rest ledger d removed_count
           | _ \<Rightarrow> cleanup_loop cutoff_time rest ledger d removed_count))"

definition cleanup_old_backups ::
  "env \<Rightarrow> backup_manager \<Rightarrow> disk \<Rightarrow> int \<Rightarrow> (exn + nat) \<times> backup_manager \<times> disk" where
  "cleanup_old_backups env m d max_age_days =
     (if \<not> backup_enabled m then (Inr 0, m, d)
      else
        (let cutoff_time = timestamp_now env - max_age_days * 24 * 3600
         in case cleanup_loop cutoff_time (backup_metadata m) (backup_metadata m) d 0 of
              (Some e, ledger, d', removed_count) \<Rightarrow>
                (Inl e, m\<lparr>backup_metadata := ledger\<rparr>, d')
            | (None, ledger, d', removed_count) \<Rightarrow>
                (let m' = m\<lparr>backup_metadata := ledger\<rparr>
                 in (Inr removed_count, m', save_backup_metadata env m' d'))))"

section \<open>Validator and metadata gateway\<close>

text \<open>
  \<open>validate_file\<close> is \<open>FileValidator.validate_file\<close>: the path must be a regular,
  non-empty file, and the format detector must accept it (\<open>format_ok\<close>); every
  exception inside the detector is caught there and gives false.
  \<open>audio_extract_metadata\<close> and \<open>audio_update_metadata\<close> are the audio codec, which
  catches its own exceptions (an empty mapping, or false); the video codec returns an
  empty mapping and false.
\<close>

definition validate_file :: "env \<Rightarrow> disk \<Rightarrow> path \<Rightarrow> bool" where
  "validate_file env d file_path =
     (case lookup d file_path of
        Some (File c t) \<Rightarrow> c \<noteq> [] \<and> format_ok env file_path c
      | _ \<Rightarrow> False)"

definition audio_extract_metadata :: "env \<Rightarrow> disk \<Rightarrow> path \<Rightarrow> metadata" where
  "audio_extract_metadata env d file_path =
     (case lookup d file_path of
        Some (File c t) \<Rightarrow> read_tags env file_path c
      | _ \<Rightarrow> Map.empty)"

definition audio_update_metadata :: "env \<Rightarrow> disk \<Rightarrow> path \<Rightarrow> metadata \<Rightarrow> bool \<times> disk" where
  "audio_update_metadata env d file_path md =
     (case lookup d file_path of
        Some (File c t) \<Rightarrow>
          (case write_tags env file_path c md of
             None \<Rightarrow> (False, d)
           | Some c' \<Rightarrow> (True, put d file_path (File c' (timestamp_now env))))
      | _ \<Rightarrow> (False, d))"

definition extract_metadata :: "env \<Rightarrow> config \<Rightarrow> disk \<Rightarrow> path \<Rightarrow> exn + metadata" where
  "extract_metadata env cfg d file_path =
     (case handler_is_audio cfg file_path of
        Inl e \<Rightarrow> Inl e
      | Inr True \<Rightarrow> Inr (audio_extract_metadata env d file_path)
      | Inr False \<Rightarrow>
          (case handler_is_video cfg file_path of
             Inl e \<Rightarrow> Inl e
           | Inr True \<Rightarrow> Inr Map.empty
           | Inr False \<Rightarrow> Inr Map.empty))"

definition update_metadata ::
  "env \<Rightarrow> config \<Rightarrow> disk \<Rightarrow> path \<Rightarrow> metadata \<Rightarrow> exn + bool \<times> disk" where
  "update_metadata env cfg d file_path md =
     (case handler_is_audio cfg file_path of
        Inl e \<Rightarrow> Inl e
      | Inr True \<Rightarrow> Inr (audio_update_metadata env d file_path md)
      | Inr False \<Rightarrow>
          (case handler_is_video cfg file_path of
             Inl e \<Rightarrow> Inl e
           | Inr True \<Rightarrow> Inr (False, d)
           | Inr False \<Rightarrow> Inr (False, d)))"

section \<open>Renaming (core/file\_renamer.py)\<close>

definition rename_file :: "disk \<Rightarrow> path \<Rightarrow> string \<Rightarrow> exn + path \<times> disk" where
  "rename_file d old_path new_name =
     (let new_path = joinpath (parent old_path) new_name;
          new_path = get_unique_filename d new_path
      in case rename d old_path new_path of
           Inl e \<Rightarrow> Inl e
         | Inr d' \<Rightarrow> Inr (new_path, d'))"

section \<open>File processor (core/file\_processor.py)\<close>

text \<open>
  \<open>process_file\<close> with the processor's backup manager and the disk as state. The
  \<open>try\<close> block is given one definition per numbered step of the source; a step
  either ends the pipeline with the result as it stands or hands it to the next step.
  An exception of a step ends the pipeline in the \<open>except\<close> branch, which appends
  \<open>str(e)\<close> to the errors (\<open>raised\<close>). What \<open>create_backup\<close> and \<open>rename_file\<close>
  return on success is a path, which is never falsy: the test \<open>not backup_path\<close> holds
  for \<open>None\<close> only, and the test \<open>not new_path\<close> never holds.
\<close>

record processing_result =
  success :: bool
  original_path :: path
  new_path :: "path option"
  metadata :: metadata
  errors :: "string list"
  warnings :: "string list"

type_synonym outcome = "processing_result \<times> backup_manager \<times> disk"

definition raised :: "env \<Rightarrow> processing_result \<Rightarrow> exn \<Rightarrow> processing_result" where
  "raised env result e = result\<lparr>errors := errors result @ [str_exn env e]\<rparr>"

text \<open>Step 7: validate final result.\<close>

definition validate_final_step ::
  "env \<Rightarrow> backup_manager \<Rightarrow> disk \<Rightarrow> processing_result \<Rightarrow> path \<Rightarrow> outcome" where
  "validate_final_step env m d result renamed =
     (if validate_file env d renamed then (result\<lparr>success := True\<rparr>, m, d)
      else (result\<lparr>errors := errors result @ [''Final validation failed'']\<rparr>, m, d))"

text \<open>Step 6: update metadata, when \<open>config.get('update_metadata', True)\<close>.\<close>

definition update_metadata_step ::
  "env \<Rightarrow> config \<Rightarrow> backup_manager \<Rightarrow> disk \<Rightarrow> processing_result \<Rightarrow> path \<Rightarrow> metadata
    \<Rightarrow> outcome" where
  "update_metadata_step env cfg m d result renamed md =
     (if (case cfg_update_metadata cfg of None \<Rightarrow> True | Some b \<Rightarrow> b)
      then (case update_metadata env cfg d renamed md of
              Inl e \<Rightarrow> (raised env result e, m, d)
            | Inr (updated, d') \<Rightarrow>
                validate_final_step env m d'
                  (if updated then result
                   else result\<lparr>warnings := warnings result @ [''Failed to update metadata'']\<rparr>)
                  renamed)
      else validate_final_step env m d result renamed)"

text \<open>Step 5: rename file.\<close>

definition rename_step ::
  "env \<Rightarrow> config \<Rightarrow> backup_manager \<Rightarrow> disk \<Rightarrow> processing_result \<Rightarrow> path \<Rightarrow> metadata
    \<Rightarrow> string \<Rightarrow> outcome" where
  "rename_step env cfg m d result file_path md new_filename =
     (case rename_file d file_path new_filename of
        Inl e \<Rightarrow> (raised env result e, m, d)
      | Inr (renamed, d') \<Rightarrow>
          update_metadata_step env cfg m d' (result\<lparr>new_path := Some renamed\<rparr>) renamed md)"

text \<open>Step 4: generate new filename.\<close>

definition generate_filename_step ::
  "env \<Rightarrow> config \<Rightarrow> backup_manager \<Rightarrow> disk \<Rightarrow> processing_result \<Rightarrow> path \<Rightarrow> metadata
    \<Rightarrow> outcome" where
  "generate_filename_step env cfg m d result file_path md =
     (case generate_filename cfg file_path md of
        Inl e \<Rightarrow> (raised env result e, m, d)
      | Inr new_filename \<Rightarrow>
          if new_filename = []
          then (result\<lparr>errors := errors result @ [''Failed to generate new filename'']\<rparr>, m, d)
          else rename_step env cfg m d result file_path md new_filename)"

text \<open>Step 3: extract metadata.\<close>

definition extract_metadata_step ::
  "env \<Rightarrow> config \<Rightarrow> backup_manager \<Rightarrow> disk \<Rightarrow> processing_result \<Rightarrow> path \<Rightarrow> outcome" where
  "extract_metadata_step env cfg m d result file_path =
     (case extract_metadata env cfg d file_path of
        Inl e \<Rightarrow> (raised env result e, m, d)
      | Inr md \<Rightarrow>
          generate_filename_step env cfg m d (result\<lparr>metadata := md\<rparr>) file_path md)"

text \<open>Step 2: create backup, when \<open>config.get('backup_enabled', True)\<close>.\<close>

definition create_backup_step ::
  "env \<Rightarrow> config \<Rightarrow> backup_manager \<Rightarrow> disk \<Rightarrow> processing_result \<Rightarrow> path \<Rightarrow> outcome" where
  "create_backup_step env cfg m d result file_path =
     (if (case cfg_backup_enabled cfg of None \<Rightarrow> True | Some b \<Rightarrow> b)
      then (case create_backup env m d file_path of
              (None, m', d') \<Rightarrow>
                extract_metadata_step env cfg m' d'
                  (result\<lparr>warnings := warnings result @ [''Failed to create backup'']\<rparr>)
                  file_path
            | (Some backup_path, m', d') \<Rightarrow>
                extract_metadata_step env cfg m' d' result file_path)
      else extract_metadata_step env cfg m d result file_path)"

text \<open>The result's initial value, and step 1: validate file.\<close>

definition process_file ::
  "env \<Rightarrow> config \<Rightarrow> backup_manager \<Rightarrow> disk \<Rightarrow> path \<Rightarrow> outcome" where
  "process_file env cfg m d file_path =
     (let result = \<lparr>success = False, original_path = file_path, new_path = None,
                     metadata = Map.empty, errors = [], warnings = []\<rparr>
      in if \<not> validate_file env d file_path
         then (result\<lparr>errors := errors result @ [''File validation failed'']\<rparr>, m, d)
         else create_backup_step env cfg m d result file_path)"

fun process_all ::
  "env \<Rightarrow> config \<Rightarrow> backup_manager \<Rightarrow> disk \<Rightarrow> path list
    \<Rightarrow> processing_result list \<times> backup_manager \<times> disk" where
  "process_all env cfg m d [] = ([], m, d)"
| "process_all env cfg m d (file_path # rest) =
     (case process_file env cfg m d file_path of
        (result, m', d') \<Rightarrow>
          (case process_all env cfg m' d' rest of
             (results, m'', d'') \<Rightarrow> (result # results, m'', d'')))"

definition process_directory ::
  "env \<Rightarrow> config \<Rightarrow> backup_manager \<Rightarrow> disk \<Rightarrow> path
    \<Rightarrow> processing_result list \<times> backup_manager \<times> disk" where
  "process_directory env cfg m d directory_path =
     process_all env cfg m d (find_media_files cfg d directory_path)"

section \<open>Vocabulary of the pipeline properties\<close>



section \<open>Example data\<close>

definition example_config :: config where
  "example_config =
     \<lparr>cfg_backup_enabled = None, cfg_update_metadata = None,
      processing_backup_enabled = None, processing_backup_directory = None,
      naming_audio_pattern = None, naming_video_pattern = None,
      supported_formats =
        Some (FormatDict [''audio'' \<mapsto> [''.mp3'', ''.flac''], ''video'' \<mapsto> [''.mp4'']])\<rparr>"


definition song :: path where
  "song = Path True [''music'', ''song.mp3'']"

definition two_songs :: disk where
  "two_songs =
     [(Path True [''music''], Dir),
      (Path True [''music'', ''song.mp3''], File ''ID3a'' 100),
      (Path True [''music'', ''song_1.mp3''], File ''ID3b'' 200)]"

definition example_env :: env where
  "example_env =
     \<lparr>format_ok = (\<lambda>p c. take 3 c = ''ID3''),
      read_tags = (\<lambda>p c. Map.empty),
      write_tags = (\<lambda>p c md. None),
      strftime_now = ''20240101_120000'',
      isoformat_now = ''2024-01-01T12:00:00'',
      timestamp_now = 1704110400,
      md5_hex = (\<lambda>c. ''0f343b0931126a20f133d67c2b018a3b''),
      json_dump = (\<lambda>l. ''[]''),
      json_load = (\<lambda>s. None),
      str_exn = (\<lambda>e. ''error'')\<rparr>"

definition relative_song :: path where
  "relative_song = Path False [''song.mp3'']"

definition backups_manager :: backup_manager where
  "backups_manager =
     \<lparr>backup_dir = Path False [''backups''], backup_enabled = True,
      metadata_file = Path False [''backups'', ''backup_metadata.json''],
      backup_metadata = []\<rparr>"

definition backups_disk :: disk where
  "backups_disk = [(Path False [''song.mp3''], File ''ID3a'' 100), (Path False [''backups''], Dir)]"

definition disabled_config :: config where
  "disabled_config = example_config\<lparr>processing_backup_enabled := Some False\<rparr>"

definition song_entry :: entry where
  "song_entry =
     [(''original_path'', JStr ''song.mp3''),
      (''backup_path'', JStr ''backups/song_20240101_120000.mp3''),
      (''created_at'', JStr ''2024-01-01T12:00:00''),
      (''file_size'', JInt 4),
      (''file_hash'', JStr ''0f343b0931126a20f133d67c2b018a3b'')]"

definition song_backup :: path where
  "song_backup = Path False [''backups'', ''song_20240101_120000.mp3'']"

definition restore_manager :: backup_manager where
  "restore_manager = backups_manager\<lparr>backup_metadata := [song_entry]\<rparr>"

definition restore_disk :: disk where
  "restore_disk = [(Path False [''backups''], Dir), (song_backup, File ''ID3a'' 100)]"







definition plain_config :: config where
  "plain_config =
     example_config\<lparr>cfg_backup_enabled := Some False, cfg_update_metadata := Some False\<rparr>"

definition one_song :: disk where
  "one_song =
     [(Path True [''music''], Dir),
      (Path True [''music'', ''song.mp3''], File ''ID3a'' 100)]"

definition renamed_song :: path where
  "renamed_song = Path True [''music'', ''song_1.mp3'']"

definition one_song_renamed :: disk where
  "one_song_renamed =
     [(Path True [''music''], Dir),
      (Path True [''music'', ''song_1.mp3''], File ''ID3a'' 100)]"

section \<open>Properties of the filename generator\<close>
















lemma rfind_split:
  "0 \<le> rfind c s \<Longrightarrow> \<exists>pre post. s = pre @ c # post \<and> c \<notin> set post \<and> rfind c s = int (length pre)"
proof (induction s)
  case Nil
  then show ?case by simp
next
  case (Cons x xs)
  show ?case
  proof (cases "0 \<le> rfind c xs")
    case True
    with Cons.IH obtain pre post where "xs = pre @ c # post" "c \<notin> set post" "rfind c xs = int (length pre)"
      by blast
    then have "x # xs = (x # pre) @ c # post \<and> c \<notin> set post \<and> rfind c (x # xs) = int (length (x # pre))"
      by (simp add: Let_def)
    then show ?thesis by blast
  next
    case False
    with Cons.prems have xc: "x = c" and r0: "rfind c (x # xs) = 0"
      by (auto simp: Let_def split: if_splits)
    have "rfind c xs < 0 \<Longrightarrow> c \<notin> set xs" for xs
      by (induction xs) (auto simp: Let_def split: if_splits)
    with False have "c \<notin> set xs" by simp
    with xc r0 have "x # xs = [] @ c # xs \<and> c \<notin> set xs \<and> rfind c (x # xs) = int (length ([]::string))"
      by simp
    then show ?thesis by blast
  qed
qed

lemma suffix_cases:
  "suffix p = [] \<or> (\<exists>rest. suffix p = CHR ''.'' # rest \<and> rest \<noteq> [] \<and> CHR ''.'' \<notin> set rest)"
proof (cases "0 < rfind CHR ''.'' (name p) \<and> rfind CHR ''.'' (name p) < int (length (name p)) - 1")
  case False
  then have "suffix p = []" by (auto simp: suffix_def Let_def)
  then show ?thesis by simp
next
  case True
  then have "0 \<le> rfind CHR ''.'' (name p)" by simp
  then obtain pre post where s: "name p = pre @ CHR ''.'' # post" "CHR ''.'' \<notin> set post"
     "rfind CHR ''.'' (name p) = int (length pre)"
    using rfind_split by blast
  from True s(1,3) have "post \<noteq> []" by auto
  moreover from True have "suffix p = drop (nat (rfind CHR ''.'' (name p))) (name p)"
    unfolding suffix_def Let_def by simp
  then have "suffix p = CHR ''.'' # post" using s(1,3) by simp
  ultimately show ?thesis using s(2) by blast
qed


lemma stem_suffix: "stem p @ suffix p = name p"
  by (simp add: stem_def suffix_def Let_def)







section \<open>Properties of the uniqueness resolver\<close>

lemma unique_loop_least:
  "\<not> exists d (unique_loop d p c)
   \<and> unique_loop d p c = numbered p (LEAST k. c \<le> k \<and> \<not> exists d (numbered p k))"
proof (induction d p c rule: unique_loop.induct)
  case (1 d p c)
  show ?case
  proof (cases "exists d (numbered p c)")
    case False
    then have "unique_loop d p c = numbered p c"
      by (simp add: unique_loop.simps[of d p c])
    moreover from False have "(LEAST k. c \<le> k \<and> \<not> exists d (numbered p k)) = c"
      by (intro Least_equality) auto
    ultimately show ?thesis using False by simp
  next
    case True
    then have u: "unique_loop d p c = unique_loop d p (c + 1)"
      by (simp add: unique_loop.simps[of d p c])
    from True have eq: "(\<lambda>k. c \<le> k \<and> \<not> exists d (numbered p k))
                  = (\<lambda>k. c + 1 \<le> k \<and> \<not> exists d (numbered p k))"
      by (auto simp: fun_eq_iff Suc_le_eq order_le_less)
    have ih: "\<not> exists d (unique_loop d p (c + 1))
        \<and> unique_loop d p (c + 1)
            = numbered p (LEAST k. c + 1 \<le> k \<and> \<not> exists d (numbered p k))"
      by (rule 1[OF refl]) (simp add: True)
    show ?thesis
      unfolding u eq by (rule ih)
  qed
qed

text \<open>
  Claim C7. \<open>get_unique_filename\<close> returns its input when nothing exists at it;
  otherwise it returns the candidate with suffix \<open>_k\<close> before the extension for the
  smallest positive \<open>k\<close> whose candidate does not exist. The loop returns on every disk,
  and nothing exists at the path returned.
\<close>

theorem get_unique_filename_least:
  "\<not> exists d (get_unique_filename d file_path)
   \<and> get_unique_filename d file_path =
       (if \<not> exists d file_path then file_path
        else numbered file_path (LEAST k. 0 < k \<and> \<not> exists d (numbered file_path k)))"
proof (cases "exists d file_path")
  case False
  then show ?thesis
    by (simp add: get_unique_filename_def)
next
  case True
  have eq: "(\<lambda>k. 0 < k \<and> \<not> exists d (numbered file_path k))
        = (\<lambda>k. 1 \<le> k \<and> \<not> exists d (numbered file_path k))"
    by (auto simp: fun_eq_iff)
  from True have g: "get_unique_filename d file_path = unique_loop d file_path 1"
    by (simp add: get_unique_filename_def)
  from True have i: "(if \<not> exists d file_path then file_path
        else numbered file_path (LEAST k. 0 < k \<and> \<not> exists d (numbered file_path k)))
        = numbered file_path (LEAST k. 1 \<le> k \<and> \<not> exists d (numbered file_path k))"
    unfolding eq by simp
  show ?thesis
    unfolding g i by (rule unique_loop_least)
qed

theorem get_unique_filename_least_witness:
  "exists two_songs song
   \<and> get_unique_filename two_songs song = Path True [''music'', ''song_2.mp3'']
   \<and> numbered song (LEAST k. 0 < k \<and> \<not> exists two_songs (numbered song k))
       = Path True [''music'', ''song_2.mp3'']"
proof -
  have e: "exists two_songs song"
    by code_simp
  have n1: "numbered song (Suc 0) = Path True [''music'', ''song_1.mp3'']"
    by (simp add: numbered_def song_def parent_def joinpath_def stem_def suffix_def name_def
        str_nat.simps digit_char_def)
  have n2: "numbered song (Suc (Suc 0)) = Path True [''music'', ''song_2.mp3'']"
    by (simp add: numbered_def song_def parent_def joinpath_def stem_def suffix_def name_def
        str_nat.simps digit_char_def)
  have e1: "exists two_songs (Path True [''music'', ''song_1.mp3''])"
    by (simp add: exists_def lookup_def two_songs_def)
  have e2: "\<not> exists two_songs (Path True [''music'', ''song_2.mp3''])"
    by (simp add: exists_def lookup_def two_songs_def)
  have u2: "unique_loop two_songs song (Suc (Suc 0)) = Path True [''music'', ''song_2.mp3'']"
    by (subst unique_loop.simps) (simp add: n2 e2)
  have u1: "unique_loop two_songs song (Suc 0) = Path True [''music'', ''song_2.mp3'']"
    by (subst unique_loop.simps) (simp add: n1 e1 u2)
  have g: "get_unique_filename two_songs song = Path True [''music'', ''song_2.mp3'']"
    using e by (simp add: get_unique_filename_def u1)
  from get_unique_filename_least[of two_songs song] e
  have "get_unique_filename two_songs song
          = numbered song (LEAST k. 0 < k \<and> \<not> exists two_songs (numbered song k))"
    by simp
  with g have "numbered song (LEAST k. 0 < k \<and> \<not> exists two_songs (numbered song k))
                 = Path True [''music'', ''song_2.mp3'']"
    by (simp only:)
  with e g show ?thesis
    by (intro conjI)
qed

section \<open>Properties of discovery\<close>

lemma lower_suffix_cases:
  "lower (suffix p) = [] \<or> (\<exists>rest. lower (suffix p) = CHR ''.'' # rest)"
proof -
  have "lower_char CHR ''.'' = CHR ''.''"
    by (simp add: lower_char_def)
  then show ?thesis
    using suffix_cases[of p] by (auto simp: lower_def)
qed

lemma lower_suffix_not_kind:
  "lower (suffix p) \<noteq> ''audio''" "lower (suffix p) \<noteq> ''video''"
  using lower_suffix_cases[of p] by auto

text \<open>
  Claim C2. When \<open>supported_formats\<close> is a dictionary whose keys are \<open>audio\<close> and
  \<open>video\<close>, the media-file filter of \<open>process_directory\<close> tests the lowercased
  extension against those keys, so no file is discovered in any directory; in
  particular no file whose extension is in the audio or video list, although the
  renamer and the metadata gateway classify that file as audio or video.
\<close>

theorem find_media_files_kind_dictionary:
  assumes "supported_formats cfg = Some (FormatDict fm)"
    and "dom fm = {''audio'', ''video''}"
  shows "find_media_files cfg d directory_path = []
     \<and> (\<forall>file_path l.
           (fm ''audio'' = Some l \<or> fm ''video'' = Some l) \<and> lower (suffix file_path) \<in> set l
           \<longrightarrow> file_path \<notin> set (find_media_files cfg d directory_path)
               \<and> (renamer_is_audio cfg file_path = Inr True
                    \<or> renamer_is_video cfg file_path = Inr True)
               \<and> (handler_is_audio cfg file_path = Inr True
                    \<or> handler_is_video cfg file_path = Inr True))"
proof -
  have none: "fm (lower (suffix p)) = None" for p
  proof -
    have "lower (suffix p) \<notin> dom fm"
      using assms(2) lower_suffix_not_kind[of p] by simp
    then show ?thesis by blast
  qed
  then have "\<not> is_media_file p (FormatDict fm)" for p
    by (simp add: is_media_file_def)
  with assms(1) have empty: "find_media_files cfg d directory_path = []"
    by (simp add: find_media_files_def)
  have kinds: "(renamer_is_audio cfg p = Inr True \<or> renamer_is_video cfg p = Inr True)
             \<and> (handler_is_audio cfg p = Inr True \<or> handler_is_video cfg p = Inr True)"
    if "fm ''audio'' = Some l \<or> fm ''video'' = Some l" and "lower (suffix p) \<in> set l" for p l
    using that assms(1)
    by (auto simp: renamer_is_audio_def renamer_is_video_def handler_is_audio_def
        handler_is_video_def kind_formats_def)
  from empty kinds show ?thesis
    by (simp only: list.set empty_iff not_False_eq_True simp_thms) blast
qed

theorem find_media_files_kind_dictionary_witness:
  "is_file two_songs song
   \<and> is_under (Path True [''music'']) song
   \<and> lower (suffix song) = ''.mp3''
   \<and> find_media_files example_config two_songs (Path True [''music'']) = []
   \<and> renamer_is_audio example_config song = Inr True
   \<and> handler_is_audio example_config song = Inr True"
proof -
  let ?fm = "[''audio'' \<mapsto> [''.mp3'', ''.flac''], ''video'' \<mapsto> [''.mp4'']]"
  have c: "supported_formats example_config = Some (FormatDict ?fm)"
    by (simp add: example_config_def)
  have k: "dom ?fm = {''audio'', ''video''}"
    by auto
  have f: "is_file two_songs song"
    by (simp add: is_file_def lookup_def two_songs_def song_def)
  have u: "is_under (Path True [''music'']) song"
    by (simp add: is_under_def song_def)
  have s: "lower (suffix song) = ''.mp3''"
    by code_simp
  have e: "find_media_files example_config two_songs (Path True [''music'']) = []"
    by (rule conjunct1 [OF find_media_files_kind_dictionary [OF c k]])
  have ra: "renamer_is_audio example_config song = Inr True"
    by code_simp
  have ha: "handler_is_audio example_config song = Inr True"
    by code_simp
  from f u s e ra ha show ?thesis
    by (intro conjI)
qed

section \<open>Properties of the filesystem operations\<close>

lemma lookup_put:
  "lookup (put d p n) q = (if q = p \<and> parts p \<noteq> [] then Some n else lookup d q)"
  by (simp add: lookup_def put_def update_conv')


lemma lookup_File_parts: "lookup d p = Some (File c t) \<Longrightarrow> parts p \<noteq> []"
  by (auto simp: lookup_def split: if_splits)

lemma copy2_Inr:
  assumes "copy2 d src dst = Inr d'"
  shows "\<exists>c t target.
           target = (if is_dir d dst then joinpath dst (name src) else dst)
         \<and> lookup d src = Some (File c t)
         \<and> src \<noteq> target
         \<and> \<not> is_dir d target
         \<and> is_dir d (parent target)
         \<and> d' = put d target (File c t)"
proof -
  define target where "target = (if is_dir d dst then joinpath dst (name src) else dst)"
  have u: "copy2 d src dst =
      (if src = target \<and> exists d src then Inl SameFileError
         else (case lookup d src of
                 None \<Rightarrow> Inl FileNotFoundError
               | Some Dir \<Rightarrow> Inl IsADirectoryError
               | Some (File c t) \<Rightarrow>
                   (case lookup d target of
                      Some Dir \<Rightarrow> Inl IsADirectoryError
                    | _ \<Rightarrow>
                        (case lookup d (parent target) of
                           None \<Rightarrow> Inl FileNotFoundError
                         | Some (File c' t') \<Rightarrow> Inl NotADirectoryError
                         | Some Dir \<Rightarrow> Inr (put d target (File c t))))))"
    unfolding copy2_def target_def Let_def by (rule refl)
  from assms obtain c t where s: "lookup d src = Some (File c t)"
    unfolding u by (cases "lookup d src") (auto split: if_splits node.splits)
  then have e: "exists d src" by (simp add: exists_def)
  from assms s e have n: "src \<noteq> target"
    unfolding u by (auto split: if_splits)
  from assms s n have r: "(case lookup d target of
                      Some Dir \<Rightarrow> Inl IsADirectoryError
                    | _ \<Rightarrow>
                        (case lookup d (parent target) of
                           None \<Rightarrow> Inl FileNotFoundError
                         | Some (File c' t') \<Rightarrow> Inl NotADirectoryError
                         | Some Dir \<Rightarrow> Inr (put d target (File c t)))) = Inr d'"
    unfolding u by simp
  then have nd: "\<not> is_dir d target"
    by (auto simp: is_dir_def)
  with r have r2: "(case lookup d (parent target) of
                           None \<Rightarrow> Inl FileNotFoundError
                         | Some (File c' t') \<Rightarrow> Inl NotADirectoryError
                         | Some Dir \<Rightarrow> Inr (put d target (File c t))) = Inr d'"
    by (cases "lookup d target") (auto simp: is_dir_def split: node.splits)
  then have pd: "is_dir d (parent target)" and d': "d' = put d target (File c t)"
    by (auto simp: is_dir_def split: option.splits node.splits)
  from target_def s n nd pd d' show ?thesis by blast
qed

lemma copy2_keeps_source:
  assumes "copy2 d src dst = Inr d'"
  shows "lookup d' src = lookup d src \<and> (\<exists>c t. lookup d src = Some (File c t))"
proof -
  from copy2_Inr[OF assms] obtain c t target where
    "lookup d src = Some (File c t)" "src \<noteq> target" "d' = put d target (File c t)"
    by blast
  then show ?thesis
    by (auto simp: lookup_put dest: lookup_File_parts)
qed

text \<open>
  Claim C10, as the code has it. For every successful \<open>create_backup\<close> call, the entry
  appended to the ledger has exactly the fields \<open>original_path\<close> (the text of the path
  as given), \<open>backup_path\<close> (the text of the backup directory joined with
  stem, timestamp and extension), \<open>created_at\<close> (the ISO text of the clock),
  \<open>file_size\<close> (the length of the original's content) and \<open>file_hash\<close> (the MD5 hex
  digest of the original's content at backup time).
\<close>

theorem create_backup_entry:
  assumes "create_backup env m d file_path = (Some backup_path, m', d')"
  shows "\<exists>c t.
           lookup d file_path = Some (File c t)
         \<and> backup_path
             = joinpath (backup_dir m)
                 (stem file_path @ ''_'' @ strftime_now env @ suffix file_path)
         \<and> backup_metadata m'
             = backup_metadata m
               @ [[(''original_path'', JStr (str_path file_path)),
                   (''backup_path'', JStr (str_path backup_path)),
                   (''created_at'', JStr (isoformat_now env)),
                   (''file_size'', JInt (int (length c))),
                   (''file_hash'', JStr (md5_hex env c))]]"
proof -
  let ?bp = "joinpath (backup_dir m) (stem file_path @ ''_'' @ strftime_now env @ suffix file_path)"
  from assms have en: "backup_enabled m"
    by (auto simp: create_backup_def split: if_splits)
  from assms en obtain d1 where c: "copy2 d file_path ?bp = Inr d1"
    unfolding create_backup_def Let_def
    by (cases "copy2 d file_path ?bp") auto
  from assms en c obtain m2 d2 where
    a: "add_backup_entry env m d1 file_path ?bp = Inr (m2, d2)"
    unfolding create_backup_def Let_def
    by (cases "add_backup_entry env m d1 file_path ?bp") auto
  from assms en c a have r: "backup_path = ?bp" "m' = m2"
    unfolding create_backup_def Let_def by auto
  from copy2_keeps_source[OF c] obtain c0 t0 where
    f: "lookup d file_path = Some (File c0 t0)" "lookup d1 file_path = Some (File c0 t0)"
    by auto
  from f(2) have "stat_size d1 file_path = Inr (int (length c0))"
      "calculate_file_hash env d1 file_path = Some (md5_hex env c0)"
    by (simp_all add: stat_size_def calculate_file_hash_def)
  with a have "backup_metadata m2
             = backup_metadata m
               @ [[(''original_path'', JStr (str_path file_path)),
                   (''backup_path'', JStr (str_path ?bp)),
                   (''created_at'', JStr (isoformat_now env)),
                   (''file_size'', JInt (int (length c0))),
                   (''file_hash'', JStr (md5_hex env c0))]]"
    by (auto simp: add_backup_entry_def Let_def)
  with r f(1) show ?thesis by blast
qed

lemma create_backup_example:
  "create_backup example_env backups_manager backups_disk relative_song
     = (Some (Path False [''backups'', ''song_20240101_120000.mp3'']),
        backups_manager\<lparr>backup_metadata :=
          [[(''original_path'', JStr ''song.mp3''),
            (''backup_path'', JStr ''backups/song_20240101_120000.mp3''),
            (''created_at'', JStr ''2024-01-01T12:00:00''),
            (''file_size'', JInt 4),
            (''file_hash'', JStr ''0f343b0931126a20f133d67c2b018a3b'')]]\<rparr>,
        [(Path False [''song.mp3''], File ''ID3a'' 100),
         (Path False [''backups''], Dir),
         (Path False [''backups'', ''song_20240101_120000.mp3''], File ''ID3a'' 100),
         (Path False [''backups'', ''backup_metadata.json''], File ''[]'' 1704110400)])"
  by (simp add: create_backup_def backups_manager_def backups_disk_def relative_song_def
      example_env_def Let_def stem_def suffix_def name_def joinpath_def copy2_def is_dir_def
      lookup_def exists_def put_def parent_def add_backup_entry_def stat_size_def
      calculate_file_hash_def str_path_def save_backup_metadata_def write_text_def)

theorem create_backup_entry_witness:
  "lookup backups_disk relative_song = Some (File ''ID3a'' 100)
   \<and> backup_metadata (fst (snd (create_backup example_env backups_manager backups_disk relative_song)))
       = [[(''original_path'', JStr ''song.mp3''),
           (''backup_path'', JStr ''backups/song_20240101_120000.mp3''),
           (''created_at'', JStr ''2024-01-01T12:00:00''),
           (''file_size'', JInt 4),
           (''file_hash'', JStr ''0f343b0931126a20f133d67c2b018a3b'')]]"
proof -
  let ?m = "fst (snd (create_backup example_env backups_manager backups_disk relative_song))"
  have l: "lookup backups_disk relative_song = Some (File ''ID3a'' 100)"
    by (simp add: lookup_def backups_disk_def relative_song_def)
  from create_backup_entry [OF create_backup_example] obtain c t where
    o: "lookup backups_disk relative_song = Some (File c t)"
       "backup_metadata ?m
          = backup_metadata backups_manager
            @ [[(''original_path'', JStr (str_path relative_song)),
                (''backup_path'', JStr (str_path (Path False [''backups'', ''song_20240101_120000.mp3'']))),
                (''created_at'', JStr (isoformat_now example_env)),
                (''file_size'', JInt (int (length c))),
                (''file_hash'', JStr (md5_hex example_env c))]]"
    unfolding create_backup_example by auto
  from o(1) l have "c = ''ID3a''" by simp
  with o(2) have "backup_metadata ?m
       = [[(''original_path'', JStr ''song.mp3''),
           (''backup_path'', JStr ''backups/song_20240101_120000.mp3''),
           (''created_at'', JStr ''2024-01-01T12:00:00''),
           (''file_size'', JInt 4),
           (''file_hash'', JStr ''0f343b0931126a20f133d67c2b018a3b'')]]"
    by (simp add: backups_manager_def str_path_def relative_song_def example_env_def)
  with l show ?thesis by (intro conjI)
qed

theorem create_backup_entry_counterexample:
  "fst (create_backup example_env backups_manager backups_disk relative_song)
     = Some (Path False [''backups'', ''song_20240101_120000.mp3''])
   \<and> map (map fst)
        (backup_metadata (fst (snd (create_backup example_env backups_manager backups_disk relative_song))))
       = [[''original_path'', ''backup_path'', ''created_at'', ''file_size'', ''file_hash'']]
   \<and> map (\<lambda>e. map_of e ''content_hash'')
        (backup_metadata (fst (snd (create_backup example_env backups_manager backups_disk relative_song))))
       = [None]
   \<and> map (\<lambda>e. map_of e ''original_path'')
        (backup_metadata (fst (snd (create_backup example_env backups_manager backups_disk relative_song))))
       = [Some (JStr ''song.mp3'')]
   \<and> map (\<lambda>e. map_of e ''backup_path'')
        (backup_metadata (fst (snd (create_backup example_env backups_manager backups_disk relative_song))))
       = [Some (JStr ''backups/song_20240101_120000.mp3'')]"
  by (simp add: create_backup_example)

section \<open>Properties of directory creation\<close>

lemma os_mkdir_Inr:
  "os_mkdir d p = Inr d' \<Longrightarrow> lookup d p = None \<and> is_dir d (parent p) \<and> d' = put d p Dir"
  by (auto simp: os_mkdir_def exists_def is_dir_def split: if_splits option.splits node.splits)

lemma mkdir_exist_ok_Inr:
  "mkdir_exist_ok d p = Inr d'
   \<Longrightarrow> (lookup d p = None \<and> d' = put d p Dir) \<or> (is_dir d p \<and> d' = d)"
  by (cases "os_mkdir d p") (auto simp: mkdir_exist_ok_def dest: os_mkdir_Inr split: if_splits)

lemma lookup_None_parts: "lookup d p = None \<Longrightarrow> parts p \<noteq> []"
  by (auto simp: lookup_def split: if_splits)

lemma is_under_parent: "parts p \<noteq> [] \<Longrightarrow> is_under (parent p) p"
  by (simp add: is_under_def parent_def butlast_conv_take)

lemma is_under_parent_trans: "is_under q (parent p) \<Longrightarrow> is_under q p"
proof -
  assume a: "is_under q (parent p)"
  then have l: "length (parts q) < length (butlast (parts p))"
    by (simp add: is_under_def parent_def)
  from a have "take (length (parts q)) (butlast (parts p)) = parts q"
    by (simp add: is_under_def parent_def)
  with l have "take (length (parts q)) (parts p) = parts q"
    by (simp add: butlast_conv_take)
  moreover from l have "length (parts q) < length (parts p)"
    by simp
  moreover from a have "anchored p = anchored q"
    by (simp add: is_under_def parent_def)
  ultimately show ?thesis
    by (simp add: is_under_def)
qed

lemma mkdir_parents_Inr:
  "mkdir_parents d p = Inr d'
   \<Longrightarrow> is_dir d' p
     \<and> (\<forall>q. lookup d' q = lookup d q
            \<or> (lookup d q = None \<and> lookup d' q = Some Dir \<and> (q = p \<or> is_under q p)))"
proof (induction d p arbitrary: d' rule: mkdir_parents.induct)
  case (1 d p)
  show ?case
  proof (cases "os_mkdir d p")
    case (Inr d1)
    with "1.prems" have d': "d' = d1"
      by (simp add: mkdir_parents.simps[of d p])
    from os_mkdir_Inr[OF Inr] have n: "lookup d p = None" and p: "d1 = put d p Dir"
      by simp_all
    from n have "parts p \<noteq> []" by (rule lookup_None_parts)
    with d' p n show ?thesis
      by (auto simp: is_dir_def lookup_put)
  next
    case (Inl e)
    show ?thesis
    proof (cases "e = FileNotFoundError")
      case False
      with Inl "1.prems" have "is_dir d p \<and> d' = d"
        by (auto simp: mkdir_parents.simps[of d p] split: if_splits)
      then show ?thesis by simp
    next
      case True
      with Inl "1.prems" have np: "parent p \<noteq> p"
        by (auto simp: mkdir_parents.simps[of d p] split: if_splits)
      then have pp: "parts p \<noteq> []"
        by (cases p) (auto simp: parent_def)
      from Inl True np "1.prems" obtain d1 where
        r: "mkdir_parents d (parent p) = Inr d1" and k: "mkdir_exist_ok d1 p = Inr d'"
        by (cases "mkdir_parents d (parent p)") (auto simp: mkdir_parents.simps[of d p])
      from "1.IH"[OF Inl True np r] have
        ih: "\<And>q. lookup d1 q = lookup d q
            \<or> (lookup d q = None \<and> lookup d1 q = Some Dir \<and> (q = parent p \<or> is_under q (parent p)))"
        by blast
      have up: "q = parent p \<or> is_under q (parent p) \<Longrightarrow> is_under q p" for q
        using is_under_parent[OF pp] is_under_parent_trans by blast
      from mkdir_exist_ok_Inr[OF k] show ?thesis
      proof
        assume a: "lookup d1 p = None \<and> d' = put d1 p Dir"
        with ih[of p] have n: "lookup d p = None" by auto
        have "lookup d' q = lookup d q
            \<or> (lookup d q = None \<and> lookup d' q = Some Dir \<and> (q = p \<or> is_under q p))" for q
          using a ih[of q] up[of q] n pp by (auto simp: lookup_put)
        moreover from a pp have "is_dir d' p" by (simp add: is_dir_def lookup_put)
        ultimately show ?thesis by blast
      next
        assume a: "is_dir d1 p \<and> d' = d1"
        have "lookup d' q = lookup d q
            \<or> (lookup d q = None \<and> lookup d' q = Some Dir \<and> (q = p \<or> is_under q p))" for q
          using a ih[of q] up[of q] by auto
        with a show ?thesis by blast
      qed
    qed
  qed
qed

lemma mkdir_parents_is_dir: "mkdir_parents d p = Inr d' \<Longrightarrow> is_dir d' p"
  using mkdir_parents_Inr by blast

lemma mkdir_parents_keeps:
  "mkdir_parents d p = Inr d' \<Longrightarrow> lookup d q = Some n \<Longrightarrow> lookup d' q = Some n"
  using mkdir_parents_Inr[of d p d'] by (metis option.distinct(1))

lemma mkdir_parents_elsewhere:
  "mkdir_parents d p = Inr d' \<Longrightarrow> q \<noteq> p \<Longrightarrow> \<not> is_under q p \<Longrightarrow> lookup d' q = lookup d q"
  using mkdir_parents_Inr[of d p d'] by blast

lemma mkdir_parents_existing: "is_dir d p \<Longrightarrow> mkdir_parents d p = Inr d"
  by (simp add: mkdir_parents.simps[of d p] os_mkdir_def exists_def is_dir_def)

lemma joinpath_proper:
  "s \<noteq> [] \<Longrightarrow> s \<noteq> ''.'' \<Longrightarrow> joinpath p s = Path (anchored p) (parts p @ [s])"
  by (simp add: joinpath_def)

lemma parent_joinpath: "s \<noteq> [] \<Longrightarrow> s \<noteq> ''.'' \<Longrightarrow> parent (joinpath p s) = p"
  by (simp add: joinpath_proper parent_def)

lemma joinpath_length: "length (parts p) \<le> length (parts (joinpath p s))"
  by (simp add: joinpath_def)

lemma longer_not_above:
  "length (parts p) \<le> length (parts q) \<Longrightarrow> \<not> is_under q p"
  by (simp add: is_under_def)

lemma backup_filename_proper:
  "stem p @ ''_'' @ ts @ sfx \<noteq> [] \<and> stem p @ ''_'' @ ts @ sfx \<noteq> ''.''"
proof -
  have "CHR ''_'' \<in> set (stem p @ ''_'' @ ts @ sfx)" by simp
  moreover have "CHR ''_'' \<notin> set ''.''" by simp
  ultimately have "stem p @ ''_'' @ ts @ sfx \<noteq> ''.''" by metis
  then show ?thesis by simp
qed

lemma backup_manager_init_Inr:
  assumes "backup_manager_init env cfg d = Inr (m, d0)"
  shows "backup_enabled m = (processing_backup_enabled cfg \<noteq> Some False)"
    and "metadata_file m = joinpath (backup_dir m) ''backup_metadata.json''"
    and "backup_metadata m = load_backup_metadata env d0 (metadata_file m)"
    and "if backup_enabled m then mkdir_parents d (backup_dir m) = Inr d0 else d0 = d"
proof -
  define dir where "dir = parse_path (case processing_backup_directory cfg of
                              None \<Rightarrow> ''./backups'' | Some s \<Rightarrow> s)"
  define enabled where "enabled = (case processing_backup_enabled cfg of None \<Rightarrow> True | Some b \<Rightarrow> b)"
  have u: "backup_manager_init env cfg d =
      (case (if enabled then mkdir_parents d dir else Inr d) of
           Inl e \<Rightarrow> Inl e
         | Inr d' \<Rightarrow>
             Inr (\<lparr>backup_dir = dir, backup_enabled = enabled,
                     metadata_file = joinpath dir ''backup_metadata.json'',
                     backup_metadata = load_backup_metadata env d' (joinpath dir ''backup_metadata.json'')\<rparr>, d'))"
    unfolding backup_manager_init_def dir_def enabled_def Let_def by (rule refl)
  from assms obtain d' where r: "(if enabled then mkdir_parents d dir else Inr d) = Inr d'"
    unfolding u by (cases "if enabled then mkdir_parents d dir else Inr d") auto
  with assms have m: "m = \<lparr>backup_dir = dir, backup_enabled = enabled,
                     metadata_file = joinpath dir ''backup_metadata.json'',
                     backup_metadata = load_backup_metadata env d' (joinpath dir ''backup_metadata.json'')\<rparr>"
    and d0: "d0 = d'"
    unfolding u by auto
  have e: "enabled = (processing_backup_enabled cfg \<noteq> Some False)"
    unfolding enabled_def by (cases "processing_backup_enabled cfg") auto
  from m e show "backup_enabled m = (processing_backup_enabled cfg \<noteq> Some False)"
    by simp
  from m show "metadata_file m = joinpath (backup_dir m) ''backup_metadata.json''"
    by simp
  from m d0 show "backup_metadata m = load_backup_metadata env d0 (metadata_file m)"
    by simp
  from m d0 r show "if backup_enabled m then mkdir_parents d (backup_dir m) = Inr d0 else d0 = d"
    by (cases enabled) simp_all
qed

text \<open>
  Claim C9, as the code has it. With backups disabled, the constructor leaves the disk
  as it is, \<open>create_backup\<close> returns none and changes nothing, \<open>cleanup_old_backups\<close>
  returns 0 and changes nothing, and without a ledger file \<open>restore_backup\<close> fails and
  changes nothing: no backup directory is created. With backups enabled, the
  constructor itself creates the backup directory; it does not create the ledger file,
  which a successful \<open>create_backup\<close> writes.
\<close>

theorem backup_manager_init_directories:
  assumes "backup_manager_init env cfg d = Inr (m, d0)"
  shows "(processing_backup_enabled cfg = Some False \<longrightarrow>
            d0 = d
          \<and> create_backup env m d0 file_path = (None, m, d0)
          \<and> cleanup_old_backups env m d0 max_age_days = (Inr 0, m, d0)
          \<and> (\<not> exists d (metadata_file m)
               \<longrightarrow> restore_backup env m d0 backup_path restore_path = (False, m, d0)))
       \<and> (processing_backup_enabled cfg \<noteq> Some False \<longrightarrow>
            is_dir d0 (backup_dir m)
          \<and> lookup d0 (metadata_file m) = lookup d (metadata_file m)
          \<and> (\<forall>bp m2 d2.
                create_backup env m d0 file_path = (Some bp, m2, d2)
                \<and> \<not> is_dir d (metadata_file m)
                \<longrightarrow> is_file d2 (metadata_file m)))"
proof (cases "processing_backup_enabled cfg = Some False")
  case True
  note i = backup_manager_init_Inr[OF assms]
  from i(1) True have off: "\<not> backup_enabled m" by simp
  with i(4) have same: "d0 = d" by simp
  from off have c: "create_backup env m d0 file_path = (None, m, d0)"
    by (simp add: create_backup_def)
  from off have k: "cleanup_old_backups env m d0 max_age_days = (Inr 0, m, d0)"
    by (simp add: cleanup_old_backups_def)
  have r: "restore_backup env m d0 backup_path restore_path = (False, m, d0)"
    if "\<not> exists d (metadata_file m)"
  proof -
    from that same have "lookup d0 (metadata_file m) = None"
      by (simp add: exists_def)
    with i(3) have "backup_metadata m = []"
      by (simp add: load_backup_metadata_def)
    then show ?thesis
      by (simp add: restore_backup_def)
  qed
  from True same c k r show ?thesis by simp
next
  case False
  note i = backup_manager_init_Inr[OF assms]
  let ?dir = "backup_dir m"
  let ?file = "metadata_file m"
  from i(1) False have on: "backup_enabled m" by simp
  with i(4) have mk: "mkdir_parents d ?dir = Inr d0" by simp
  then have dir: "is_dir d0 ?dir" by (rule mkdir_parents_is_dir)
  have fparts: "parts ?file = parts ?dir @ [''backup_metadata.json'']"
    unfolding i(2) by (simp add: joinpath_proper)
  have fparent: "parent ?file = ?dir"
    unfolding i(2) by (simp add: parent_joinpath)
  from fparts have "?file \<noteq> ?dir" "\<not> is_under ?file ?dir"
    by (auto simp: is_under_def)
  with mk have keep: "lookup d0 ?file = lookup d ?file"
    by (rule mkdir_parents_elsewhere)
  have w: "is_file d2 ?file"
    if cb: "create_backup env m d0 file_path = (Some bp, m2, d2)" and nd: "\<not> is_dir d ?file"
    for bp m2 d2
  proof -
    let ?bp = "joinpath ?dir (stem file_path @ ''_'' @ strftime_now env @ suffix file_path)"
    from cb on obtain d1 where c: "copy2 d0 file_path ?bp = Inr d1"
      unfolding create_backup_def Let_def
      by (cases "copy2 d0 file_path ?bp") auto
    from cb on c obtain ma d2a where
      a: "add_backup_entry env m d1 file_path ?bp = Inr (ma, d2a)"
      unfolding create_backup_def Let_def
      by (cases "add_backup_entry env m d1 file_path ?bp") auto
    from cb on c a have r: "m2 = ma" "d2 = d2a"
      unfolding create_backup_def Let_def by auto
    from a have mf: "metadata_file ma = ?file"
      and d2a: "d2a = save_backup_metadata env ma d1"
      by (auto simp: add_backup_entry_def Let_def split: sum.splits)
    from copy2_Inr[OF c] obtain c0 t0 target where
      t: "target = (if is_dir d0 ?bp then joinpath ?bp (name file_path) else ?bp)"
         "d1 = put d0 target (File c0 t0)"
      by blast
    have "parts ?bp = parts ?dir @ [stem file_path @ ''_'' @ strftime_now env @ suffix file_path]"
      using backup_filename_proper by (simp add: joinpath_proper)
    then have "length (parts ?dir) < length (parts ?bp)" by simp
    moreover have "length (parts ?bp) \<le> length (parts (joinpath ?bp (name file_path)))"
      by (rule joinpath_length)
    ultimately have "length (parts ?dir) < length (parts target)"
      unfolding t(1) by simp
    then have "target \<noteq> ?dir" by auto
    with t(2) dir have dir1: "lookup d1 ?dir = Some Dir"
      by (simp add: lookup_put is_dir_def)
    from nd keep have "lookup d0 ?file \<noteq> Some Dir"
      by (simp add: is_dir_def)
    with t(2) have nd1: "lookup d1 ?file \<noteq> Some Dir"
      by (simp add: lookup_put)
    from nd1 dir1 fparent have
      "write_text d1 ?file (json_dump env (backup_metadata ma)) (timestamp_now env)
         = Inr (put d1 ?file (File (json_dump env (backup_metadata ma)) (timestamp_now env)))"
      by (cases "lookup d1 ?file") (auto simp: write_text_def split: node.splits)
    with d2a mf have "d2a = put d1 ?file (File (json_dump env (backup_metadata ma)) (timestamp_now env))"
      by (simp add: save_backup_metadata_def)
    with fparts r(2) show ?thesis
      by (simp add: is_file_def lookup_put)
  qed
  from False dir keep w show ?thesis by blast
qed

lemma init_enabled_example:
  "backup_manager_init example_env example_config []
     = Inr (backups_manager, [(Path False [''backups''], Dir)])"
proof -
  have p: "parse_path ''./backups'' = Path False [''backups'']"
    by (simp add: parse_path_def)
  have m: "mkdir_parents [] (Path False [''backups'']) = Inr [(Path False [''backups''], Dir)]"
    by (subst mkdir_parents.simps)
      (simp add: os_mkdir_def exists_def lookup_def parent_def put_def)
  show ?thesis
    by (simp add: backup_manager_init_def example_config_def p m Let_def joinpath_def
        load_backup_metadata_def lookup_def backups_manager_def)
qed

lemma init_disabled_example:
  "backup_manager_init example_env disabled_config []
     = Inr (backups_manager\<lparr>backup_enabled := False\<rparr>, [])"
proof -
  have p: "parse_path ''./backups'' = Path False [''backups'']"
    by (simp add: parse_path_def)
  show ?thesis
    by (simp add: backup_manager_init_def disabled_config_def example_config_def p Let_def
        joinpath_def load_backup_metadata_def lookup_def backups_manager_def)
qed

theorem backup_manager_init_directories_witness:
  "backup_manager_init example_env example_config []
     = Inr (backups_manager, [(Path False [''backups''], Dir)])
   \<and> is_dir [(Path False [''backups''], Dir)] (backup_dir backups_manager)
   \<and> lookup [(Path False [''backups''], Dir)] (metadata_file backups_manager) = None
   \<and> backup_manager_init example_env disabled_config []
       = Inr (backups_manager\<lparr>backup_enabled := False\<rparr>, [])
   \<and> create_backup example_env (backups_manager\<lparr>backup_enabled := False\<rparr>) [] relative_song
       = (None, backups_manager\<lparr>backup_enabled := False\<rparr>, [])"
proof -
  have on: "processing_backup_enabled example_config \<noteq> Some False"
    by (simp add: example_config_def)
  have off: "processing_backup_enabled disabled_config = Some False"
    by (simp add: disabled_config_def)
  have n: "lookup [] (metadata_file backups_manager) = None"
    by (simp add: lookup_def backups_manager_def)
  from backup_manager_init_directories [OF init_enabled_example, of relative_song] on n
  have a: "is_dir [(Path False [''backups''], Dir)] (backup_dir backups_manager)"
    and b: "lookup [(Path False [''backups''], Dir)] (metadata_file backups_manager) = None"
    by simp_all
  from backup_manager_init_directories [OF init_disabled_example, of relative_song] off
  have c: "create_backup example_env (backups_manager\<lparr>backup_enabled := False\<rparr>) [] relative_song
       = (None, backups_manager\<lparr>backup_enabled := False\<rparr>, [])"
    by simp
  from init_enabled_example a b init_disabled_example c show ?thesis
    by (intro conjI)
qed

theorem backup_manager_init_eager_counterexample:
  "\<not> exists [] (Path False [''backups''])
   \<and> backup_enabled backups_manager
   \<and> backup_dir backups_manager = Path False [''backups'']
   \<and> backup_manager_init example_env example_config []
       = Inr (backups_manager, [(Path False [''backups''], Dir)])
   \<and> is_dir [(Path False [''backups''], Dir)] (Path False [''backups''])"
proof -
  have a: "\<not> exists [] (Path False [''backups''])"
    by (simp add: exists_def lookup_def)
  have b: "backup_enabled backups_manager" "backup_dir backups_manager = Path False [''backups'']"
    by (simp_all add: backups_manager_def)
  have c: "is_dir [(Path False [''backups''], Dir)] (Path False [''backups''])"
    by (simp add: is_dir_def lookup_def)
  from a b init_enabled_example c show ?thesis
    by (intro conjI)
qed

section \<open>Properties of restore\<close>

lemma get_original_path_none:
  "\<forall>e \<in> set ledger. map_of e ''backup_path'' \<noteq> Some (JStr (str_path backup_path))
   \<Longrightarrow> get_original_path ledger backup_path = Inr None"
  by (induction ledger) simp_all

lemma get_original_path_some:
  "get_original_path ledger backup_path = Inr (Some original)
   \<Longrightarrow> \<exists>e \<in> set ledger. map_of e ''backup_path'' = Some (JStr (str_path backup_path))
                          \<and> entry_path e ''original_path'' = Inr original"
  by (induction ledger) (auto split: if_splits sum.splits)

lemma copy2_to_file:
  assumes "lookup d src = Some (File c t)" and "\<not> is_dir d dst" and "dst \<noteq> src"
    and "is_dir d (parent dst)"
  shows "copy2 d src dst = Inr (put d dst (File c t))"
proof -
  from assms(2) have "lookup d dst \<noteq> Some Dir" by (simp add: is_dir_def)
  then have "(case lookup d dst of
                      Some Dir \<Rightarrow> Inl IsADirectoryError
                    | _ \<Rightarrow>
                        (case lookup d (parent dst) of
                           None \<Rightarrow> Inl FileNotFoundError
                         | Some (File c' t') \<Rightarrow> Inl NotADirectoryError
                         | Some Dir \<Rightarrow> Inr (put d dst (File c t))))
       = (case lookup d (parent dst) of
                           None \<Rightarrow> Inl FileNotFoundError
                         | Some (File c' t') \<Rightarrow> Inl NotADirectoryError
                         | Some Dir \<Rightarrow> Inr (put d dst (File c t)))"
    by (cases "lookup d dst") (auto split: node.splits)
  with assms show ?thesis
    by (simp add: copy2_def is_dir_def)
qed

text \<open>
  Claim C8. \<open>restore_backup\<close> returns false, and changes nothing, when no ledger entry
  records the backup path. When the ledger gives an original path for it, the backup
  file is there, and the destination (the original path, or the caller's override) is
  neither a directory nor the backup file itself, then the destination's directories
  are created as needed and the backup's content is copied to the destination; the
  ledger and the backup file stay as they are, and restoring the same backup again
  succeeds again with the same outcome.
\<close>

theorem restore_backup_repeatable:
  "((\<forall>e \<in> set (backup_metadata m).
        map_of e ''backup_path'' \<noteq> Some (JStr (str_path backup_path)))
      \<longrightarrow> restore_backup env m d backup_path restore_path = (False, m, d))
   \<and> (get_original_path (backup_metadata m) backup_path = Inr (Some original)
        \<and> destination = (case restore_path of None \<Rightarrow> original | Some r \<Rightarrow> r)
        \<and> lookup d backup_path = Some (File c t)
        \<and> \<not> is_dir d destination
        \<and> destination \<noteq> backup_path
        \<and> mkdir_parents d (parent destination) = Inr d1
      \<longrightarrow> (\<exists>d2. restore_backup env m d backup_path restore_path = (True, m, d2)
                \<and> is_dir d2 (parent destination)
                \<and> lookup d2 destination = Some (File c t)
                \<and> lookup d2 backup_path = Some (File c t)
                \<and> restore_backup env m d2 backup_path restore_path = (True, m, d2)))"
proof (intro conjI impI)
  assume "\<forall>e \<in> set (backup_metadata m).
            map_of e ''backup_path'' \<noteq> Some (JStr (str_path backup_path))"
  then have "get_original_path (backup_metadata m) backup_path = Inr None"
    by (rule get_original_path_none)
  then show "restore_backup env m d backup_path restore_path = (False, m, d)"
    by (simp add: restore_backup_def)
next
  assume a: "get_original_path (backup_metadata m) backup_path = Inr (Some original)
        \<and> destination = (case restore_path of None \<Rightarrow> original | Some r \<Rightarrow> r)
        \<and> lookup d backup_path = Some (File c t)
        \<and> \<not> is_dir d destination
        \<and> destination \<noteq> backup_path
        \<and> mkdir_parents d (parent destination) = Inr d1"
  then have g: "get_original_path (backup_metadata m) backup_path = Inr (Some original)"
    and dest: "(case restore_path of None \<Rightarrow> original | Some r \<Rightarrow> r) = destination"
    and src: "lookup d backup_path = Some (File c t)"
    and nd: "\<not> is_dir d destination"
    and ne: "destination \<noteq> backup_path"
    and mk: "mkdir_parents d (parent destination) = Inr d1"
    by blast+
  let ?d2 = "put d1 destination (File c t)"
  from nd have dparts: "parts destination \<noteq> []"
    by (auto simp: is_dir_def lookup_def)
  then have shorter: "length (parts (parent destination)) < length (parts destination)"
    by (simp add: parent_def)
  from mk have pd1: "is_dir d1 (parent destination)"
    by (rule mkdir_parents_is_dir)
  from mk src have src1: "lookup d1 backup_path = Some (File c t)"
    by (rule mkdir_parents_keeps)
  from shorter have "destination \<noteq> parent destination" "\<not> is_under destination (parent destination)"
    by (auto simp: is_under_def)
  with mk have "lookup d1 destination = lookup d destination"
    by (rule mkdir_parents_elsewhere)
  with nd have nd1: "\<not> is_dir d1 destination"
    by (simp add: is_dir_def)
  from src1 nd1 ne pd1 have c1: "copy2 d1 backup_path destination = Inr ?d2"
    by (rule copy2_to_file)
  from g dest mk c1 have r1: "restore_backup env m d backup_path restore_path = (True, m, ?d2)"
    by (simp add: restore_backup_def)
  from shorter have pne: "parent destination \<noteq> destination"
    by auto
  with pd1 have pd2: "is_dir ?d2 (parent destination)"
    by (simp add: is_dir_def lookup_put)
  from dparts have dst2: "lookup ?d2 destination = Some (File c t)"
    by (simp add: lookup_put)
  from src1 ne have src2: "lookup ?d2 backup_path = Some (File c t)"
    by (simp add: lookup_put)
  from pd2 have mk2: "mkdir_parents ?d2 (parent destination) = Inr ?d2"
    by (rule mkdir_parents_existing)
  from dst2 have nd2: "\<not> is_dir ?d2 destination"
    by (simp add: is_dir_def)
  from src2 nd2 ne pd2 have "copy2 ?d2 backup_path destination = Inr (put ?d2 destination (File c t))"
    by (rule copy2_to_file)
  moreover have "put ?d2 destination (File c t) = ?d2"
    by (simp add: put_def)
  ultimately have c2: "copy2 ?d2 backup_path destination = Inr ?d2"
    by simp
  from g dest mk2 c2 have r2: "restore_backup env m ?d2 backup_path restore_path = (True, m, ?d2)"
    by (simp add: restore_backup_def)
  from r1 pd2 dst2 src2 r2
  show "\<exists>d2. restore_backup env m d backup_path restore_path = (True, m, d2)
                \<and> is_dir d2 (parent destination)
                \<and> lookup d2 destination = Some (File c t)
                \<and> lookup d2 backup_path = Some (File c t)
                \<and> restore_backup env m d2 backup_path restore_path = (True, m, d2)"
    by blast
qed

theorem restore_backup_repeatable_witness:
  "(\<exists>d2. restore_backup example_env restore_manager restore_disk song_backup
            (Some (Path False [''restored'', ''song.mp3''])) = (True, restore_manager, d2)
         \<and> is_dir d2 (Path False [''restored''])
         \<and> lookup d2 (Path False [''restored'', ''song.mp3'']) = Some (File ''ID3a'' 100)
         \<and> lookup d2 song_backup = Some (File ''ID3a'' 100)
         \<and> restore_backup example_env restore_manager d2 song_backup
              (Some (Path False [''restored'', ''song.mp3''])) = (True, restore_manager, d2))
   \<and> restore_backup example_env restore_manager restore_disk (Path False [''backups'', ''other.mp3''])
        None = (False, restore_manager, restore_disk)"
proof -
  let ?dest = "Path False [''restored'', ''song.mp3'']"
  let ?d1 = "[(Path False [''backups''], Dir), (song_backup, File ''ID3a'' 100),
              (Path False [''restored''], Dir)]"
  have s: "str_path song_backup = ''backups/song_20240101_120000.mp3''"
    by (simp add: str_path_def song_backup_def)
  have g: "get_original_path (backup_metadata restore_manager) song_backup
             = Inr (Some (Path False [''song.mp3'']))"
    by (simp add: restore_manager_def song_entry_def s entry_path_def parse_path_def)
  have dest: "?dest = (case Some ?dest of None \<Rightarrow> Path False [''song.mp3''] | Some r \<Rightarrow> r)"
    by simp
  have src: "lookup restore_disk song_backup = Some (File ''ID3a'' 100)"
    by (simp add: lookup_def restore_disk_def song_backup_def)
  have nd: "\<not> is_dir restore_disk ?dest"
    by (simp add: is_dir_def lookup_def restore_disk_def song_backup_def)
  have ne: "?dest \<noteq> song_backup"
    by (simp add: song_backup_def)
  have mk: "mkdir_parents restore_disk (parent ?dest) = Inr ?d1"
    by (subst mkdir_parents.simps)
      (simp add: os_mkdir_def exists_def lookup_def parent_def put_def restore_disk_def
        song_backup_def)
  have o: "str_path (Path False [''backups'', ''other.mp3'']) = ''backups/other.mp3''"
    by (simp add: str_path_def)
  have none: "\<forall>e \<in> set (backup_metadata restore_manager).
        map_of e ''backup_path'' \<noteq> Some (JStr (str_path (Path False [''backups'', ''other.mp3''])))"
    by (simp add: restore_manager_def song_entry_def o)
  note t = restore_backup_repeatable [of restore_manager _ example_env restore_disk]
  from t [of "Path False [''backups'', ''other.mp3'']" None] none
  have a: "restore_backup example_env restore_manager restore_disk
             (Path False [''backups'', ''other.mp3'']) None = (False, restore_manager, restore_disk)"
    by blast
  from t [of song_backup "Some ?dest" "Path False [''song.mp3'']" ?dest "''ID3a''" 100 ?d1]
    g dest src nd ne mk
  have b: "\<exists>d2. restore_backup example_env restore_manager restore_disk song_backup (Some ?dest)
                 = (True, restore_manager, d2)
         \<and> is_dir d2 (parent ?dest)
         \<and> lookup d2 ?dest = Some (File ''ID3a'' 100)
         \<and> lookup d2 song_backup = Some (File ''ID3a'' 100)
         \<and> restore_backup example_env restore_manager d2 song_backup (Some ?dest)
              = (True, restore_manager, d2)"
    by blast
  have p: "parent ?dest = Path False [''restored'']"
    by (simp add: parent_def)
  from b a show ?thesis
    unfolding p by (intro conjI)
qed

section \<open>Properties of cleanup\<close>












section \<open>Properties of the file processor\<close>









lemma validate_song: "validate_file example_env one_song song"
  by (simp add: validate_file_def lookup_def one_song_def song_def example_env_def)

lemma validate_renamed_song: "validate_file example_env one_song_renamed renamed_song"
  by (simp add: validate_file_def lookup_def one_song_renamed_def renamed_song_def example_env_def)

lemma song_is_audio:
  "handler_is_audio example_config song = Inr True"
  "handler_is_audio plain_config song = Inr True"
  "handler_is_audio example_config renamed_song = Inr True"
  by (simp_all add: handler_is_audio_def kind_formats_def example_config_def plain_config_def
      song_def renamed_song_def suffix_def name_def lower_def lower_char_def)

lemma audio_extract_song: "audio_extract_metadata example_env one_song song = Map.empty"
  by (simp add: audio_extract_metadata_def lookup_def one_song_def song_def example_env_def)

lemma extract_song:
  "extract_metadata example_env example_config one_song song = Inr Map.empty"
  "extract_metadata example_env plain_config one_song song = Inr Map.empty"
  by (simp_all add: extract_metadata_def song_is_audio audio_extract_song)

lemma generate_song:
  "generate_filename example_config song Map.empty = Inr ''song.mp3''"
  "generate_filename plain_config song Map.empty = Inr ''song.mp3''"
  by (simp_all add: generate_filename_def renamer_is_audio_def kind_formats_def
      example_config_def plain_config_def song_def suffix_def name_def lower_def lower_char_def
      fill_pattern_def audio_pattern_def format_def classify_def)

lemma unique_song: "get_unique_filename one_song song = renamed_song"
proof -
  have n: "numbered song (Suc 0) = renamed_song"
    by (simp add: numbered_def song_def parent_def joinpath_def stem_def suffix_def name_def
        str_nat.simps digit_char_def renamed_song_def)
  have e: "exists one_song song"
    by (simp add: exists_def lookup_def one_song_def song_def)
  have f: "\<not> exists one_song renamed_song"
    by (simp add: exists_def lookup_def one_song_def renamed_song_def)
  have "unique_loop one_song song (Suc 0) = renamed_song"
    by (subst unique_loop.simps) (simp add: n f)
  with e show ?thesis
    by (simp add: get_unique_filename_def)
qed

lemma rename_song:
  "rename_file one_song song ''song.mp3'' = Inr (renamed_song, one_song_renamed)"
proof -
  have j: "joinpath (parent song) ''song.mp3'' = song"
    by (simp add: joinpath_def parent_def song_def)
  have r: "rename one_song song renamed_song = Inr one_song_renamed"
    by (simp add: rename_def lookup_def is_dir_def parent_def rebase_def is_under_def
        one_song_def song_def renamed_song_def one_song_renamed_def)
  show ?thesis
    by (simp add: rename_file_def j unique_song r)
qed




lemma process_plain_song:
  "process_file example_env plain_config backups_manager one_song song
     = (\<lparr>success = True, original_path = song, new_path = Some renamed_song,
          metadata = Map.empty, errors = [], warnings = []\<rparr>,
        backups_manager, one_song_renamed)"
proof -
  have c: "cfg_backup_enabled plain_config = Some False" "cfg_update_metadata plain_config = Some False"
    by (simp_all add: plain_config_def)
  show ?thesis
    by (simp add: process_file_def validate_song create_backup_step_def c
        extract_metadata_step_def extract_song generate_filename_step_def generate_song
        rename_step_def rename_song update_metadata_step_def validate_final_step_def
        validate_renamed_song)
qed




text \<open>
  Claim C1 at a concrete input. The file passes validation, its metadata supplies
  neither \<open>artist\<close> nor \<open>title\<close>, so \<open>generate_filename\<close> gives the original name back.
  That name is not empty: \<open>process_file\<close> records no error, renames \<open>song.mp3\<close> to
  \<open>song_1.mp3\<close> (its own name is taken, by itself) and reports success.
\<close>

theorem process_file_missing_placeholder_renames:
  "validate_file example_env one_song song
   \<and> extract_metadata example_env plain_config one_song song = Inr Map.empty
   \<and> placeholders (tokens (audio_pattern plain_config)) = [''artist'', ''title'']
   \<and> generate_filename plain_config song Map.empty = Inr (name song)
   \<and> process_file example_env plain_config backups_manager one_song song
       = (\<lparr>success = True, original_path = song, new_path = Some renamed_song,
            metadata = Map.empty, errors = [], warnings = []\<rparr>,
          backups_manager, one_song_renamed)
   \<and> \<not> exists one_song_renamed song
   \<and> exists one_song_renamed renamed_song"
proof -
  have p: "placeholders (tokens (audio_pattern plain_config)) = [''artist'', ''title'']"
    by (simp add: audio_pattern_def plain_config_def example_config_def classify_def)
  have "name song = ''song.mp3''"
    by (simp add: name_def song_def)
  then have n: "generate_filename plain_config song Map.empty = Inr (name song)"
    by (simp only: generate_song)
  have a: "\<not> exists one_song_renamed song"
    by (simp add: exists_def lookup_def one_song_renamed_def song_def)
  have b: "exists one_song_renamed renamed_song"
    by (simp add: exists_def lookup_def one_song_renamed_def renamed_song_def)
  from validate_song extract_song(2) p n process_plain_song a b show ?thesis
    by (intro conjI)
qed

end
